theory Spec2Isabelle
  imports Complex_Main "HOL-Library.AList"
begin

section \<open>Exceptions, JSON values and the external world\<close>

text \<open>
  The harness drives two external collaborators: the REST backend (through
  \<^verbatim>\<open>requests.Session\<close>) and a browser (through Playwright). Every call to one of
  them either returns or raises, and what it does is not decided by the code under
  verification. The model therefore takes a \<open>world\<close>: for the \<open>n\<close>-th external call of a
  run it fixes the outcome of that call. All theorems quantify over the world, so they
  hold for every behaviour of backend and browser, including behaviour that depends on
  everything that happened before.

  Every exception of the source is a value of type \<open>error\<close>; all of them are subclasses
  of Python's \<^verbatim>\<open>Exception\<close>, so \<^verbatim>\<open>except Exception\<close> catches each.
\<close>

datatype error =
    Timeout
  | ConnectionError
  | AuthenticationFailed int
  | NoAccessToken
  | ProjectCreationFailed int
  | GetProjectFailed int
  | JSONDecodeError
  | AssertionError string
  | PlaywrightError string
  | ZeroDivisionError
  | KeyError string

text \<open>
  A response body is a JSON object; \<^verbatim>\<open>dict.get(key)\<close> yields \<^verbatim>\<open>None\<close> for a missing
  key, which is \<open>JNone\<close> here. \<open>truthy\<close> is Python's truth value of such a value, as
  used by \<^verbatim>\<open>assert x\<close>, \<^verbatim>\<open>if x\<close> and \<^verbatim>\<open>if not x\<close>.
\<close>

datatype json = JNone | JInt int | JStr string | JBool bool

type_synonym json_object = "(string \<times> json) list"

definition dict_get :: "json_object \<Rightarrow> string \<Rightarrow> json" where
  "dict_get d k = (case map_of d k of None \<Rightarrow> JNone | Some v \<Rightarrow> v)"

fun truthy :: "json \<Rightarrow> bool" where
  "truthy JNone = False"
| "truthy (JInt n) = (n \<noteq> 0)"
| "truthy (JStr s) = (s \<noteq> [])"
| "truthy (JBool b) = b"

text \<open>
  \<open>json_body = None\<close> stands for a body that \<^verbatim>\<open>response.json()\<close> cannot decode.
\<close>

record response =
  status_code :: int
  json_body :: "json_object option"

record TestProject =
  name :: string
  description :: string
  team_members :: "string list"

text \<open>
  The four requests of \<^verbatim>\<open>APIClient\<close>: \<^verbatim>\<open>POST /auth/login\<close>, \<^verbatim>\<open>POST /projects\<close>,
  \<^verbatim>\<open>GET /projects/{id}\<close> and \<^verbatim>\<open>DELETE /projects/{id}\<close>, the last three with the
  \<^verbatim>\<open>X-Tenant-ID\<close> header as their last argument.
\<close>

datatype request =
    LoginRequest string string
  | CreateProjectRequest TestProject string
  | GetProjectRequest json string
  | DeleteProjectRequest json string

datatype selector =
    EmailInput | PasswordInput | LoginButton | WelcomeMessage
  | ProjectsLink | ProjectList | ProjectCard string
  | ProjectDetails | ProjectTitle | ProjectDescription | TeamMembers
  | MobileNav | Swipeable

datatype ui_action =
    StartPlaywright | StopPlaywright
  | Launch | NewPage | NewContext string | CloseBrowser
  | Goto string
  | Fill selector string
  | Click selector
  | ExpectNavigation
  | ExpectUrlPattern string
  | WaitForSelector selector nat
  | WaitForLoadState string
  | ExpectVisible selector nat
  | ExpectText selector string
  | Tap selector
  | SwipeLeft selector

datatype event =
    Http request
  | Ui ui_action
  | ReadUrl
  | CountLocator selector
  | Sleep nat
  | Append json string
  | TestingOn string

record world =
  http_reply :: "nat \<Rightarrow> request \<Rightarrow> error + response"
  ui_reply :: "nat \<Rightarrow> ui_action \<Rightarrow> error option"
  url_reply :: "nat \<Rightarrow> string"
  count_reply :: "nat \<Rightarrow> selector \<Rightarrow> nat"

text \<open>
  The state of a run: \<open>clock\<close> counts the external calls made so far, \<open>trace\<close> records
  them in order, \<open>cleanup_projects\<close> is the list the fixture of that name hands to the
  test, and \<open>created_project_id\<close> is the local variable of
  \<^verbatim>\<open>test_project_creation_flow\<close>, which its \<^verbatim>\<open>finally\<close> block reads after an exception.
\<close>

record run_state =
  clock :: nat
  trace :: "event list"
  cleanup_projects :: "(json \<times> string) list"
  created_project_id :: json

definition initial_state :: run_state where
  "initial_state =
     \<lparr>clock = 0, trace = [], cleanup_projects = [], created_project_id = JNone\<rparr>"

type_synonym 'a prog = "world \<Rightarrow> run_state \<Rightarrow> (error + 'a) \<times> run_state"

definition ret :: "'a \<Rightarrow> 'a prog" where
  "ret x = (\<lambda>w s. (Inr x, s))"

definition raise :: "error \<Rightarrow> 'a prog" where
  "raise e = (\<lambda>w s. (Inl e, s))"

definition bnd :: "'a prog \<Rightarrow> ('a \<Rightarrow> 'b prog) \<Rightarrow> 'b prog" where
  "bnd m f = (\<lambda>w s. case m w s of
                 (Inl e, s') \<Rightarrow> (Inl e, s')
               | (Inr x, s') \<Rightarrow> f x w s')"

text \<open>
  \<open>attempt m\<close> is the body of a \<^verbatim>\<open>try\<close>: it never raises and hands the outcome of \<open>m\<close>
  to the code after it, which is the \<^verbatim>\<open>except Exception\<close> branch for \<open>Inl\<close>.
  \<open>try_finally m fin\<close> runs \<open>fin\<close> after \<open>m\<close> whatever \<open>m\<close> did; an exception of \<open>fin\<close>
  replaces the outcome of \<open>m\<close>, as in Python.
\<close>

definition attempt :: "'a prog \<Rightarrow> (error + 'a) prog" where
  "attempt m = (\<lambda>w s. case m w s of (r, s') \<Rightarrow> (Inr r, s'))"

definition try_finally :: "'a prog \<Rightarrow> unit prog \<Rightarrow> 'a prog" where
  "try_finally m fin = (\<lambda>w s. case m w s of
     (r, s') \<Rightarrow> (case fin w s' of
                   (Inl e, s'') \<Rightarrow> (Inl e, s'')
                 | (Inr _, s'') \<Rightarrow> (r, s'')))"

definition assert :: "bool \<Rightarrow> string \<Rightarrow> unit prog" where
  "assert c msg = (if c then ret () else raise (AssertionError msg))"

definition emit :: "event \<Rightarrow> run_state \<Rightarrow> run_state" where
  "emit e s = s\<lparr>clock := Suc (clock s), trace := trace s @ [e]\<rparr>"

definition http :: "request \<Rightarrow> response prog" where
  "http r = (\<lambda>w s. (http_reply w (clock s) r, emit (Http r) s))"

definition ui :: "ui_action \<Rightarrow> unit prog" where
  "ui a = (\<lambda>w s. (case ui_reply w (clock s) a of
                     None \<Rightarrow> Inr ()
                   | Some e \<Rightarrow> Inl e, emit (Ui a) s))"

definition page_url :: "string prog" where
  "page_url = (\<lambda>w s. (Inr (url_reply w (clock s)), emit ReadUrl s))"

definition locator_count :: "selector \<Rightarrow> nat prog" where
  "locator_count sel = (\<lambda>w s. (Inr (count_reply w (clock s) sel), emit (CountLocator sel) s))"

definition sleep :: "nat \<Rightarrow> unit prog" where
  "sleep n = (\<lambda>w s. (Inr (), emit (Sleep n) s))"

section \<open>APIClient\<close>

definition response_json :: "response \<Rightarrow> json_object prog" where
  "response_json r = (case json_body r of
                        None \<Rightarrow> raise JSONDecodeError
                      | Some d \<Rightarrow> ret d)"

definition authenticate :: "string \<Rightarrow> string \<Rightarrow> json prog" where
  "authenticate email password =
     bnd (http (LoginRequest email password)) (\<lambda>response.
       if status_code response \<noteq> 200
       then raise (AuthenticationFailed (status_code response))
       else bnd (response_json response) (\<lambda>token_data.
         let token = dict_get token_data ''access_token'' in
         if \<not> truthy token then raise NoAccessToken
         else ret token))"

definition create_project :: "TestProject \<Rightarrow> string \<Rightarrow> json_object prog" where
  "create_project project tenant_id =
     bnd (http (CreateProjectRequest project tenant_id)) (\<lambda>response.
       if status_code response \<notin> {200, 201}
       then raise (ProjectCreationFailed (status_code response))
       else response_json response)"

definition get_project :: "json \<Rightarrow> string \<Rightarrow> json_object prog" where
  "get_project project_id tenant_id =
     bnd (http (GetProjectRequest project_id tenant_id)) (\<lambda>response.
       if status_code response \<noteq> 200
       then raise (GetProjectFailed (status_code response))
       else response_json response)"

definition delete_project :: "json \<Rightarrow> string \<Rightarrow> bool prog" where
  "delete_project project_id tenant_id =
     bnd (attempt (http (DeleteProjectRequest project_id tenant_id))) (\<lambda>r.
       case r of
         Inr response \<Rightarrow> ret (status_code response \<in> {200, 204, 404})
       | Inl e \<Rightarrow> ret False)"

section \<open>TenantIsolationTester\<close>

definition verify_tenant_isolation :: "json \<Rightarrow> string \<Rightarrow> string \<Rightarrow> bool prog" where
  "verify_tenant_isolation project_id authorized_tenant unauthorized_tenant =
     bnd (attempt (get_project project_id authorized_tenant)) (\<lambda>r1.
       case r1 of
         Inl e \<Rightarrow> ret False
       | Inr authorized_project \<Rightarrow>
           bnd (attempt (get_project project_id unauthorized_tenant)) (\<lambda>r2.
             case r2 of
               Inr unauthorized_project \<Rightarrow> ret False
             | Inl e \<Rightarrow> ret True))"

text \<open>
  An access denial is the backend answering the read with 403 (Forbidden) or 404
  (NotFound), which \<open>get_project\<close> turns into its exception carrying that status.
\<close>

definition access_denied :: "error + json_object \<Rightarrow> bool" where
  "access_denied r = (r = Inl (GetProjectFailed 403) \<or> r = Inl (GetProjectFailed 404))"


section \<open>Strings\<close>

text \<open>
  \<open>contains sub s\<close> is Python's \<^verbatim>\<open>sub in s\<close> on strings and \<open>lower\<close> is
  \<^verbatim>\<open>str.lower\<close> on ASCII text.
\<close>

fun starts_with :: "string \<Rightarrow> string \<Rightarrow> bool" where
  "starts_with [] s = True"
| "starts_with (p # ps) [] = False"
| "starts_with (p # ps) (c # cs) = (p = c \<and> starts_with ps cs)"

fun contains :: "string \<Rightarrow> string \<Rightarrow> bool" where
  "contains sub [] = (sub = [])"
| "contains sub (c # cs) = (starts_with sub (c # cs) \<or> contains sub cs)"

definition lower_char :: "char \<Rightarrow> char" where
  "lower_char c =
     (let n = (of_char c :: nat) in if 65 \<le> n \<and> n \<le> 90 then char_of (n + 32) else c)"

definition lower :: "string \<Rightarrow> string" where
  "lower s = map lower_char s"

section \<open>WebUITester\<close>

definition login :: "string \<Rightarrow> string \<Rightarrow> unit prog" where
  "login email password =
     bnd (ui (Goto ''/login'')) (\<lambda>_.
     bnd (ui (Fill EmailInput email)) (\<lambda>_.
     bnd (ui (Fill PasswordInput password)) (\<lambda>_.
     bnd (ui (Click LoginButton)) (\<lambda>_.
     bnd (ui ExpectNavigation) (\<lambda>_.
     bnd (ui (ExpectUrlPattern ''dashboard'')) (\<lambda>_.
     ui (WaitForSelector WelcomeMessage 30000)))))))"

text \<open>
  Only the \<^verbatim>\<open>expect(project_locator).to_be_visible\<close> call is inside the
  \<^verbatim>\<open>try\<close>; the click on the projects link, the wait for the load state and the wait
  for the project list are before it.
\<close>

definition verify_project_in_dashboard :: "string \<Rightarrow> nat \<Rightarrow> bool prog" where
  "verify_project_in_dashboard project_name timeout =
     bnd page_url (\<lambda>url.
     bnd (if \<not> contains ''projects'' url
          then bnd (ui (Click ProjectsLink)) (\<lambda>_. ui (WaitForLoadState ''networkidle''))
          else ret ()) (\<lambda>_.
     bnd (ui (WaitForSelector ProjectList timeout)) (\<lambda>_.
     bnd (attempt (ui (ExpectVisible (ProjectCard project_name) timeout))) (\<lambda>r.
       case r of
         Inr _ \<Rightarrow> ret True
       | Inl e \<Rightarrow> ret False))))"

fun expect_team_members :: "string list \<Rightarrow> unit prog" where
  "expect_team_members [] = ret ()"
| "expect_team_members (member # rest) =
     bnd (ui (ExpectText TeamMembers member)) (\<lambda>_. expect_team_members rest)"

definition verify_project_details :: "TestProject \<Rightarrow> bool prog" where
  "verify_project_details project =
     bnd (ui (Click (ProjectCard (name project)))) (\<lambda>_.
     bnd (ui (WaitForSelector ProjectDetails 30000)) (\<lambda>_.
     bnd (ui (ExpectText ProjectTitle (name project))) (\<lambda>_.
     bnd (ui (ExpectText ProjectDescription (description project))) (\<lambda>_.
     bnd (expect_team_members (team_members project)) (\<lambda>_.
     ret True)))))"

section \<open>MobileTester\<close>

text \<open>
  \<^verbatim>\<open>with sync_playwright() as p:\<close> starts Playwright, runs its body and stops
  Playwright on every exit from the body. An \<^verbatim>\<open>expect\<close> without a timeout uses
  Playwright's default of 5000 ms.
\<close>

definition with_playwright :: "'a prog \<Rightarrow> 'a prog" where
  "with_playwright body =
     bnd (ui StartPlaywright) (\<lambda>_. try_finally body (ui StopPlaywright))"

definition create_mobile_browser :: "string \<Rightarrow> unit prog" where
  "create_mobile_browser device_type =
     with_playwright
       (bnd (if device_type \<in> {''iphone'', ''android''} then ret ()
             else raise (KeyError device_type)) (\<lambda>config.
        bnd (ui Launch) (\<lambda>browser.
        bnd (ui (NewContext device_type)) (\<lambda>context.
        ui NewPage))))"

definition test_mobile_interactions :: "string \<Rightarrow> unit prog" where
  "test_mobile_interactions project_name =
     bnd (ui (Tap (ProjectCard project_name))) (\<lambda>_.
     bnd (ui (ExpectVisible MobileNav 5000)) (\<lambda>_.
     bnd (locator_count Swipeable) (\<lambda>n.
       if n > 0 then ui (SwipeLeft Swipeable) else ret ())))"

definition test_mobile_accessibility ::
  "string \<Rightarrow> string \<Rightarrow> string \<Rightarrow> string \<Rightarrow> bool prog" where
  "test_mobile_accessibility project_name email password device_type =
     bnd (create_mobile_browser device_type) (\<lambda>_.
       try_finally
         (bnd (login email password) (\<lambda>_.
          bnd (verify_project_in_dashboard project_name 45000) (\<lambda>found.
          bnd (if found then test_mobile_interactions project_name else ret ()) (\<lambda>_.
          ret found))))
         (ui CloseBrowser))"

section \<open>BrowserStackIntegration\<close>

definition test_desktop_platform ::
  "string \<Rightarrow> string \<Rightarrow> string \<Rightarrow> string \<Rightarrow> bool prog" where
  "test_desktop_platform platform project_name email password =
     with_playwright
       (bnd (ui Launch) (\<lambda>browser.
        bnd (ui NewPage) (\<lambda>page.
          try_finally
            (bnd (login email password) (\<lambda>_.
             verify_project_in_dashboard project_name 30000))
            (ui CloseBrowser))))"

text \<open>
  The body of the \<^verbatim>\<open>try\<close> inside the loop of \<^verbatim>\<open>test_cross_platform\<close>: the log line
  \<^verbatim>\<open>Testing on {platform}\<close>, recorded in the trace, and the dispatch on the platform's
  name. All other log lines of the source change nothing and are left out.
\<close>

definition testing_on :: "string \<Rightarrow> unit prog" where
  "testing_on platform = (\<lambda>w s. (Inr (), emit (TestingOn platform) s))"

definition platform_test :: "string \<Rightarrow> string \<Rightarrow> string \<Rightarrow> string \<Rightarrow> bool prog" where
  "platform_test platform project_name email password =
     bnd (testing_on platform) (\<lambda>_.
       if contains ''mobile'' (lower platform) \<or> contains ''android'' platform
          \<or> contains ''iphone'' platform
       then test_mobile_accessibility project_name email password
              (if contains ''ios'' platform then ''iphone'' else ''android'')
       else test_desktop_platform platform project_name email password)"

text \<open>
  \<open>results\<close> is the dictionary of the source, in insertion order; assigning to a key
  that is present replaces its value in place.
\<close>

fun cross_platform_loop ::
  "string list \<Rightarrow> string \<Rightarrow> string \<Rightarrow> string \<Rightarrow> (string \<times> bool) list
     \<Rightarrow> (string \<times> bool) list prog" where
  "cross_platform_loop [] project_name email password results = ret results"
| "cross_platform_loop (platform # rest) project_name email password results =
     bnd (attempt (platform_test platform project_name email password)) (\<lambda>r.
       case r of
         Inr success \<Rightarrow>
           cross_platform_loop rest project_name email password
             (AList.update platform success results)
       | Inl e \<Rightarrow>
           cross_platform_loop rest project_name email password
             (AList.update platform False results))"

definition platforms :: "string list" where
  "platforms = [''chrome_windows'', ''safari_mac'', ''chrome_android'', ''safari_ios'']"

definition test_cross_platform :: "string \<Rightarrow> string \<Rightarrow> string \<Rightarrow> (string \<times> bool) list prog" where
  "test_cross_platform project_name email password =
     cross_platform_loop platforms project_name email password []"

section \<open>Traces\<close>

text \<open>
  \<open>emits P m\<close>: whatever the world does, \<open>m\<close> only adds events that satisfy \<open>P\<close> to the
  trace and leaves the fixture's list and the local variable as they are.
\<close>

definition emits :: "(event \<Rightarrow> bool) \<Rightarrow> 'a prog \<Rightarrow> bool" where
  "emits P m =
     (\<forall>w s. \<exists>evs. trace (snd (m w s)) = trace s @ evs \<and> list_all P evs
        \<and> cleanup_projects (snd (m w s)) = cleanup_projects s
        \<and> created_project_id (snd (m w s)) = created_project_id s)"

fun browser_event :: "event \<Rightarrow> bool" where
  "browser_event (Ui a) = True"
| "browser_event ReadUrl = True"
| "browser_event (CountLocator sel) = True"
| "browser_event e = False"

text \<open>
  \<open>traces P m\<close>: whatever the world does, \<open>m\<close> only adds events that satisfy \<open>P\<close> to
  the trace. Unlike \<open>emits\<close> it says nothing about the rest of the state.
\<close>

definition traces :: "(event \<Rightarrow> bool) \<Rightarrow> 'a prog \<Rightarrow> bool" where
  "traces P m = (\<forall>w s. \<exists>evs. trace (snd (m w s)) = trace s @ evs \<and> list_all P evs)"

text \<open>
  What a trace says about the cleanup registry: the pairs registered by
  \<^verbatim>\<open>cleanup_projects.append\<close>, and the pairs for which a delete request was sent, both in
  order. An event is \<open>quiet\<close> when it is neither.
\<close>

fun registrations :: "event list \<Rightarrow> (json \<times> string) list" where
  "registrations [] = []"
| "registrations (Append i t # es) = (i, t) # registrations es"
| "registrations (e # es) = registrations es"

fun deletions :: "event list \<Rightarrow> (json \<times> string) list" where
  "deletions [] = []"
| "deletions (Http (DeleteProjectRequest i t) # es) = (i, t) # deletions es"
| "deletions (e # es) = deletions es"

fun quiet :: "event \<Rightarrow> bool" where
  "quiet (Append i t) = False"
| "quiet (Http (DeleteProjectRequest i t)) = False"
| "quiet e = True"

text \<open>
  The platforms named by the log lines \<^verbatim>\<open>Testing on {platform}\<close> of a trace, in
  order: one for every iteration of the loop of \<^verbatim>\<open>test_cross_platform\<close>.
\<close>

fun testing_on_events :: "event list \<Rightarrow> string list" where
  "testing_on_events [] = []"
| "testing_on_events (TestingOn p # es) = p # testing_on_events es"
| "testing_on_events (e # es) = testing_on_events es"

text \<open>
  The vocabulary of the fan-out claim: the checks of the given platforms run one after
  the other, each to its end and each in the state the one before it left, whatever
  their outcomes. \<open>check_outcomes\<close> lists what each check returned or raised,
  \<open>after_checks\<close> is the state left by the last one.
\<close>

fun check_outcomes ::
  "string list \<Rightarrow> string \<Rightarrow> string \<Rightarrow> string \<Rightarrow> world \<Rightarrow> run_state \<Rightarrow> (error + bool) list"
  where
  "check_outcomes [] project_name email password w s = []"
| "check_outcomes (platform # rest) project_name email password w s =
     fst (platform_test platform project_name email password w s)
     # check_outcomes rest project_name email password w
         (snd (platform_test platform project_name email password w s))"

fun after_checks ::
  "string list \<Rightarrow> string \<Rightarrow> string \<Rightarrow> string \<Rightarrow> world \<Rightarrow> run_state \<Rightarrow> run_state" where
  "after_checks [] project_name email password w s = s"
| "after_checks (platform # rest) project_name email password w s =
     after_checks rest project_name email password w
       (snd (platform_test platform project_name email password w s))"

section \<open>LoginPage\<close>

text \<open>
  \<open>navigate_attempt\<close> is the body of the \<^verbatim>\<open>try\<close> in \<^verbatim>\<open>navigate_to_login\<close>, the operation
  that is retried. \<open>navigate_loop\<close> is the \<^verbatim>\<open>for attempt in range(max_retries)\<close> loop on
  the attempts that remain, and \<open>navigate_with_retries\<close> the whole method for a given
  value of its local constant \<^verbatim>\<open>max_retries\<close>, which the source sets to 3. A loop that
  runs out of attempts without returning or raising falls through and returns.
\<close>

definition navigate_attempt :: "unit prog" where
  "navigate_attempt =
     bnd (ui (Goto ''/login'')) (\<lambda>_.
     bnd (ui (WaitForLoadState ''domcontentloaded'')) (\<lambda>_.
     ui (ExpectUrlPattern ''login'')))"

fun navigate_loop :: "nat \<Rightarrow> nat list \<Rightarrow> unit prog" where
  "navigate_loop max_retries [] = ret ()"
| "navigate_loop max_retries (attempt_index # rest) =
     bnd (attempt navigate_attempt) (\<lambda>r.
       case r of
         Inr _ \<Rightarrow> ret ()
       | Inl e \<Rightarrow>
           if attempt_index = max_retries - 1 then raise e
           else bnd (sleep 2) (\<lambda>_. navigate_loop max_retries rest))"

definition navigate_with_retries :: "nat \<Rightarrow> unit prog" where
  "navigate_with_retries max_retries = navigate_loop max_retries [0..<max_retries]"

definition navigate_to_login :: "unit prog" where
  "navigate_to_login = navigate_with_retries 3"

text \<open>
  The vocabulary of the retry claim. \<open>invocations tr\<close> counts the invocations of the
  operation in a trace: each starts with the \<^verbatim>\<open>page.goto\<close> of the login page.
  \<open>nth_invocation i\<close> is the \<open>i\<close>-th invocation (from 0) in a run in which all the
  invocations before it failed, each followed by the pause of two seconds: its outcome
  and the state it leaves.
\<close>

definition invocations :: "event list \<Rightarrow> nat" where
  "invocations tr = length (filter (\<lambda>e. e = Ui (Goto ''/login'')) tr)"

fun nth_invocation :: "nat \<Rightarrow> world \<Rightarrow> run_state \<Rightarrow> (error + unit) \<times> run_state" where
  "nth_invocation 0 w s = navigate_attempt w s"
| "nth_invocation (Suc i) w s =
     nth_invocation i w (snd (sleep 2 w (snd (navigate_attempt w s))))"

section \<open>Success rates\<close>

text \<open>
  Both success rates are Python floats: the quotient of two integers by \<^verbatim>\<open>/\<close>, which is
  the double nearest to the exact quotient (ties to the even significand), compared
  with the literal \<^verbatim>\<open>0.8\<close>, which is the double nearest to \<open>4/5\<close>. The quotients here
  lie between 0 and 1, and \<open>nearest_double\<close> is that rounding on this range: \<open>binade\<close>
  counts the doublings that bring the value into the interval from 1/2 to 1, where
  doubles are \<open>2\<^sup>-\<^sup>5\<^sup>3\<close> apart, and stops at 1021, where doubles become subnormal.
  Doubles are represented by their exact rational values.
\<close>

definition round_half_even :: "rat \<Rightarrow> int" where
  "round_half_even x =
     (let f = \<lfloor>x\<rfloor>; d = x - of_int f
      in if d < 1 / 2 then f
         else if 1 / 2 < d then f + 1
         else if even f then f else f + 1)"

fun binade :: "nat \<Rightarrow> rat \<Rightarrow> nat" where
  "binade 0 q = 0"
| "binade (Suc fuel) q = (if 1 / 2 \<le> q then 0 else Suc (binade fuel (2 * q)))"

definition nearest_double :: "rat \<Rightarrow> rat" where
  "nearest_double q =
     (let k = binade 1021 q
      in of_int (round_half_even (q * 2 ^ (k + 53))) / 2 ^ (k + 53))"

definition float_0_8 :: rat where
  "float_0_8 = nearest_double (8 / 10)"

definition true_div :: "nat \<Rightarrow> nat \<Rightarrow> rat prog" where
  "true_div m n =
     (if n = 0 then raise ZeroDivisionError
      else ret (nearest_double (of_nat m / of_nat n)))"

text \<open>
  \<^verbatim>\<open>sum(platform_results.values())\<close> counts the true entries and
  \<^verbatim>\<open>len(platform_results)\<close> all entries of the dictionary.
\<close>

definition cross_platform_success_rate :: "(string \<times> bool) list \<Rightarrow> rat prog" where
  "cross_platform_success_rate platform_results =
     true_div (length (filter snd platform_results)) (length platform_results)"

section \<open>The integration test and its fixture\<close>

definition COMPANY1_ID :: string where "COMPANY1_ID = ''company1''"
definition COMPANY2_ID :: string where "COMPANY2_ID = ''company2''"
definition ADMIN_EMAIL :: string where "ADMIN_EMAIL = ''admin@company1.com''"
definition PASSWORD :: string where "PASSWORD = ''password123''"

definition set_created_project_id :: "json \<Rightarrow> unit prog" where
  "set_created_project_id v = (\<lambda>w s. (Inr (), s\<lparr>created_project_id := v\<rparr>))"

definition get_created_project_id :: "json prog" where
  "get_created_project_id = (\<lambda>w s. (Inr (created_project_id s), s))"

text \<open>
  \<^verbatim>\<open>cleanup_projects.append(item)\<close>: the item goes to the end of the fixture's list, and
  the trace records the registration.
\<close>

definition cleanup_projects_append :: "json \<times> string \<Rightarrow> unit prog" where
  "cleanup_projects_append item =
     (\<lambda>w s. (Inr (), emit (Append (fst item) (snd item))
                        (s\<lparr>cleanup_projects := cleanup_projects s @ [item]\<rparr>)))"

definition get_cleanup_projects :: "(json \<times> string) list prog" where
  "get_cleanup_projects = (\<lambda>w s. (Inr (cleanup_projects s), s))"

text \<open>
  The five steps of the \<^verbatim>\<open>try\<close> block of \<^verbatim>\<open>test_project_creation_flow\<close>, named as the
  source's comments name them. An \<^verbatim>\<open>assert\<close> without a message raises an
  \<^verbatim>\<open>AssertionError\<close> with the empty message. The assignment \<^verbatim>\<open>test_project.id = created_project_id\<close>
  is left out: nothing reads that field afterwards.
\<close>

definition step1_api_project_creation :: "TestProject \<Rightarrow> json prog" where
  "step1_api_project_creation test_project =
     bnd (authenticate ADMIN_EMAIL PASSWORD) (\<lambda>token.
     bnd (assert (truthy token) ''Failed to authenticate with API'') (\<lambda>_.
     bnd (create_project test_project COMPANY1_ID) (\<lambda>project_response.
     bnd (set_created_project_id (dict_get project_response ''id'')) (\<lambda>_.
     bnd (cleanup_projects_append (dict_get project_response ''id'', COMPANY1_ID)) (\<lambda>_.
     bnd (assert (truthy (dict_get project_response ''id''))
            ''No project ID returned from API'') (\<lambda>_.
     bnd (assert (dict_get project_response ''name'' = JStr (name test_project)) []) (\<lambda>_.
     bnd (assert (dict_get project_response ''status'' = JStr ''active'') []) (\<lambda>_.
     ret (dict_get project_response ''id'')))))))))"

definition step2_web_ui_verification :: "TestProject \<Rightarrow> unit prog" where
  "step2_web_ui_verification test_project =
     with_playwright
       (bnd (ui Launch) (\<lambda>browser.
        bnd (ui NewPage) (\<lambda>page.
          try_finally
            (bnd (login ADMIN_EMAIL PASSWORD) (\<lambda>_.
             bnd (sleep 2) (\<lambda>_.
             bnd (verify_project_in_dashboard (name test_project) 30000) (\<lambda>project_found.
             bnd (assert project_found ''Project not found in web dashboard'') (\<lambda>_.
             bnd (verify_project_details test_project) (\<lambda>_.
             ret ()))))))
            (ui CloseBrowser))))"

definition step3_mobile_accessibility :: "TestProject \<Rightarrow> unit prog" where
  "step3_mobile_accessibility test_project =
     bnd (test_mobile_accessibility (name test_project) ADMIN_EMAIL PASSWORD ''iphone'')
       (\<lambda>iphone_success.
     bnd (assert iphone_success ''Project not accessible on iPhone'') (\<lambda>_.
     bnd (test_mobile_accessibility (name test_project) ADMIN_EMAIL PASSWORD ''android'')
       (\<lambda>android_success.
     assert android_success ''Project not accessible on Android'')))"

definition step4_tenant_isolation :: "json \<Rightarrow> unit prog" where
  "step4_tenant_isolation project_id =
     bnd (verify_tenant_isolation project_id COMPANY1_ID COMPANY2_ID) (\<lambda>isolation_verified.
     assert isolation_verified ''Tenant isolation failed - SECURITY ISSUE!'')"

definition step5_cross_platform :: "TestProject \<Rightarrow> unit prog" where
  "step5_cross_platform test_project =
     bnd (test_cross_platform (name test_project) ADMIN_EMAIL PASSWORD) (\<lambda>platform_results.
     bnd (cross_platform_success_rate platform_results) (\<lambda>success_rate.
     assert (float_0_8 \<le> success_rate) ''Cross-platform success rate too low''))"

text \<open>
  The \<^verbatim>\<open>finally\<close> block reads the local variable, which is still \<^verbatim>\<open>None\<close> when the
  exception came before the assignment. The \<^verbatim>\<open>except\<close> clause logs and re-raises.
\<close>

definition verify_before_cleanup :: "unit prog" where
  "verify_before_cleanup =
     bnd get_created_project_id (\<lambda>project_id.
       if truthy project_id
       then bnd (attempt (get_project project_id COMPANY1_ID)) (\<lambda>_. ret ())
       else ret ())"

definition test_project_creation_flow :: "TestProject \<Rightarrow> unit prog" where
  "test_project_creation_flow test_project =
     try_finally
       (bnd (step1_api_project_creation test_project) (\<lambda>project_id.
        bnd (step2_web_ui_verification test_project) (\<lambda>_.
        bnd (step3_mobile_accessibility test_project) (\<lambda>_.
        bnd (step4_tenant_isolation project_id) (\<lambda>_.
        step5_cross_platform test_project)))))
       verify_before_cleanup"

text \<open>
  The fixture \<^verbatim>\<open>cleanup_projects\<close> of the test module. The code after its \<^verbatim>\<open>yield\<close> is
  \<open>cleanup_projects_teardown\<close>: the authentication and the loop over the list are in
  one \<^verbatim>\<open>try\<close>.
\<close>

fun delete_projects :: "(json \<times> string) list \<Rightarrow> unit prog" where
  "delete_projects [] = ret ()"
| "delete_projects (project_info # rest) =
     bnd (delete_project (fst project_info) (snd project_info)) (\<lambda>_.
     delete_projects rest)"

definition cleanup_projects_teardown :: "unit prog" where
  "cleanup_projects_teardown =
     bnd (attempt
            (bnd (authenticate ''admin@company1.com'' ''password123'') (\<lambda>_.
             bnd get_cleanup_projects (\<lambda>created_projects.
             delete_projects created_projects)))) (\<lambda>_.
     ret ())"

text \<open>
  What pytest does with a test that uses the fixture: the fixture yields an empty list,
  the test runs, and the code after the \<^verbatim>\<open>yield\<close> runs whether the test returned or
  raised. The outcome of the run is the outcome of the test.
\<close>

definition run_test_project_creation_flow ::
  "TestProject \<Rightarrow> world \<Rightarrow> (error + unit) \<times> run_state" where
  "run_test_project_creation_flow test_project w =
     (case test_project_creation_flow test_project w initial_state of
        (outcome, s) \<Rightarrow> (outcome, snd (cleanup_projects_teardown w s)))"

text \<open>
  The vocabulary of the claim about sleeps. In a trace, \<open>Sleep n\<close> is a call of
  \<^verbatim>\<open>time.sleep(n)\<close> and \<open>ReadUrl\<close> is the first thing
  \<^verbatim>\<open>verify_project_in_dashboard\<close> does, so it marks the start of a dashboard check.
  \<open>one_sleep_before_first_check\<close> holds of a trace with no sleep and no dashboard check,
  and of a trace whose first sleep is one of two seconds, comes before every dashboard
  check, is directly followed by one, and is the only sleep. \<open>until_ui_login\<close> is the
  run of the test from its start to the end of the login of step 2.
\<close>

fun nosleep :: "event \<Rightarrow> bool" where
  "nosleep (Sleep n) = False"
| "nosleep e = True"

fun plain :: "event \<Rightarrow> bool" where
  "plain (Sleep n) = False"
| "plain ReadUrl = False"
| "plain e = True"

fun one_sleep_before_first_check :: "event list \<Rightarrow> bool" where
  "one_sleep_before_first_check [] = True"
| "one_sleep_before_first_check (Sleep n # es) =
     (n = 2 \<and> (case es of ReadUrl # post \<Rightarrow> list_all nosleep post | _ \<Rightarrow> False))"
| "one_sleep_before_first_check (ReadUrl # es) = False"
| "one_sleep_before_first_check (e # es) = one_sleep_before_first_check es"

definition until_ui_login :: "TestProject \<Rightarrow> unit prog" where
  "until_ui_login test_project =
     bnd (step1_api_project_creation test_project) (\<lambda>_.
     bnd (ui StartPlaywright) (\<lambda>_.
     bnd (ui Launch) (\<lambda>_.
     bnd (ui NewPage) (\<lambda>_.
     login ADMIN_EMAIL PASSWORD))))"

text \<open>
  Two notions for the proofs about sleeps. \<open>sleep_checked evs\<close>: the events hold a
  sleep of two seconds directly followed by the start of a dashboard check, with
  neither a sleep nor a check before it and no sleep after it. \<open>guarded m\<close>: whatever
  the world does, either the events \<open>m\<close> adds are of that form, or \<open>m\<close> raises and
  has added neither a sleep nor a check.
\<close>

definition sleep_checked :: "event list \<Rightarrow> bool" where
  "sleep_checked evs =
     (\<exists>pre post. evs = pre @ Sleep 2 # ReadUrl # post \<and> list_all plain pre
        \<and> list_all nosleep post)"

definition guarded :: "'a prog \<Rightarrow> bool" where
  "guarded m =
     (\<forall>w s. \<exists>evs. trace (snd (m w s)) = trace s @ evs
        \<and> (sleep_checked evs \<or> (list_all plain evs \<and> isl (fst (m w s)))))"

section \<open>Concrete worlds\<close>

text \<open>
  A backend on which tenant \<open>company1\<close> reads every project and every other read times
  out in the transport, before any status is received.
\<close>

definition timeout_world :: world where
  "timeout_world =
     \<lparr>http_reply = (\<lambda>n r. case r of
          GetProjectRequest i t \<Rightarrow>
            if t = ''company1'' then Inr \<lparr>status_code = 200, json_body = Some []\<rparr>
            else Inl Timeout
        | _ \<Rightarrow> Inl ConnectionError),
      ui_reply = (\<lambda>n a. None), url_reply = (\<lambda>n. []), count_reply = (\<lambda>n sel. 0)\<rparr>"

text \<open>
  A browser that is already on the projects page, on which the project list never
  appears and no project card is ever visible.
\<close>

definition list_never_loads_world :: world where
  "list_never_loads_world =
     \<lparr>http_reply = (\<lambda>n r. Inl ConnectionError),
      ui_reply = (\<lambda>n a. case a of
          WaitForSelector sel t \<Rightarrow> Some (PlaywrightError ''Timeout exceeded'')
        | ExpectVisible sel t \<Rightarrow> Some (AssertionError ''Locator expected to be visible'')
        | _ \<Rightarrow> None),
      url_reply = (\<lambda>n. ''https://app.workflowpro.com/projects''),
      count_reply = (\<lambda>n sel. 0)\<rparr>"

text \<open>
  A browser on the dashboard on which every action succeeds, except that no element is
  ever found visible.
\<close>

definition card_never_visible_world :: world where
  "card_never_visible_world =
     \<lparr>http_reply = (\<lambda>n r. Inl ConnectionError),
      ui_reply = (\<lambda>n a. case a of
          ExpectVisible sel t \<Rightarrow> Some (AssertionError ''Locator expected to be visible'')
        | _ \<Rightarrow> None),
      url_reply = (\<lambda>n. ''https://app.workflowpro.com/dashboard''),
      count_reply = (\<lambda>n sel. 0)\<rparr>"

text \<open>
  A browser on the dashboard on which every click fails and everything else succeeds.
\<close>

definition click_fails_world :: world where
  "click_fails_world =
     \<lparr>http_reply = (\<lambda>n r. Inl ConnectionError),
      ui_reply = (\<lambda>n a. case a of
          Click sel \<Rightarrow> Some (PlaywrightError ''Element is not attached'')
        | _ \<Rightarrow> None),
      url_reply = (\<lambda>n. ''https://app.workflowpro.com/dashboard''),
      count_reply = (\<lambda>n sel. 0)\<rparr>"

text \<open>
  A browser whose first two calls fail (Playwright cannot start the first session) and
  on which every later action succeeds.
\<close>

definition first_session_fails_world :: world where
  "first_session_fails_world =
     \<lparr>http_reply = (\<lambda>n r. Inl ConnectionError),
      ui_reply = (\<lambda>n a. if n < 2 then Some (PlaywrightError ''Executable not found'') else None),
      url_reply = (\<lambda>n. ''https://app.workflowpro.com/dashboard''),
      count_reply = (\<lambda>n sel. 0)\<rparr>"

text \<open>
  A browser on which the first navigation is reset, the second reaches the page but
  the wait for the load state fails (the calls numbered 0 and 3), and everything after
  that succeeds; and a browser on which every action fails.
\<close>

definition flaky_navigation_world :: world where
  "flaky_navigation_world =
     \<lparr>http_reply = (\<lambda>n r. Inl ConnectionError),
      ui_reply = (\<lambda>n a. if n = 0 \<or> n = 3 then Some (PlaywrightError ''Connection reset'')
                         else None),
      url_reply = (\<lambda>n. ''https://app.workflowpro.com/login''),
      count_reply = (\<lambda>n sel. 0)\<rparr>"

definition unreachable_site_world :: world where
  "unreachable_site_world =
     \<lparr>http_reply = (\<lambda>n r. Inl ConnectionError),
      ui_reply = (\<lambda>n a. Some (PlaywrightError ''Name not resolved'')),
      url_reply = (\<lambda>n. []),
      count_reply = (\<lambda>n sel. 0)\<rparr>"

text \<open>
  A project as the fixture \<^verbatim>\<open>test_project\<close> builds it, and two backends for it. On
  \<open>creation_only_world\<close> every login succeeds, the creation answers 201 with a body
  that holds an id and nothing else, reads answer 404 and deletions 204; the browser
  does not start. \<open>expired_login_world\<close> differs in that only the first login of the
  run succeeds: every later one is answered with 401.
\<close>

definition sample_project :: TestProject where
  "sample_project =
     \<lparr>name = ''Test Project 1a2b3c4d'',
      description = ''Integration test project'',
      team_members = [''john.doe@company1.com'', ''jane.smith@company1.com'']\<rparr>"

definition creation_only_world :: world where
  "creation_only_world =
     \<lparr>http_reply = (\<lambda>n r. case r of
          LoginRequest e p \<Rightarrow>
            Inr \<lparr>status_code = 200, json_body = Some [(''access_token'', JStr ''token'')]\<rparr>
        | CreateProjectRequest p t \<Rightarrow>
            Inr \<lparr>status_code = 201, json_body = Some [(''id'', JInt 42)]\<rparr>
        | GetProjectRequest i t \<Rightarrow> Inr \<lparr>status_code = 404, json_body = None\<rparr>
        | DeleteProjectRequest i t \<Rightarrow> Inr \<lparr>status_code = 204, json_body = None\<rparr>),
      ui_reply = (\<lambda>n a. Some (PlaywrightError ''Executable not found'')),
      url_reply = (\<lambda>n. []),
      count_reply = (\<lambda>n sel. 0)\<rparr>"

definition expired_login_world :: world where
  "expired_login_world =
     \<lparr>http_reply = (\<lambda>n r. case r of
          LoginRequest e p \<Rightarrow>
            if n = 0
            then Inr \<lparr>status_code = 200, json_body = Some [(''access_token'', JStr ''token'')]\<rparr>
            else Inr \<lparr>status_code = 401, json_body = None\<rparr>
        | CreateProjectRequest p t \<Rightarrow>
            Inr \<lparr>status_code = 201, json_body = Some [(''id'', JInt 42)]\<rparr>
        | GetProjectRequest i t \<Rightarrow> Inr \<lparr>status_code = 404, json_body = None\<rparr>
        | DeleteProjectRequest i t \<Rightarrow> Inr \<lparr>status_code = 204, json_body = None\<rparr>),
      ui_reply = (\<lambda>n a. Some (PlaywrightError ''Executable not found'')),
      url_reply = (\<lambda>n. []),
      count_reply = (\<lambda>n sel. 0)\<rparr>"

text \<open>
  A backend that creates \<open>sample_project\<close> as the test expects it, and a browser on the
  dashboard on which every action succeeds, except that no element is ever found
  visible.
\<close>

definition card_missing_world :: world where
  "card_missing_world =
     \<lparr>http_reply = (\<lambda>n r. case r of
          LoginRequest e p \<Rightarrow>
            Inr \<lparr>status_code = 200, json_body = Some [(''access_token'', JStr ''token'')]\<rparr>
        | CreateProjectRequest p t \<Rightarrow>
            Inr \<lparr>status_code = 201,
                 json_body = Some [(''id'', JInt 42), (''name'', JStr (name p)),
                                   (''status'', JStr ''active'')]\<rparr>
        | GetProjectRequest i t \<Rightarrow> Inr \<lparr>status_code = 404, json_body = None\<rparr>
        | DeleteProjectRequest i t \<Rightarrow> Inr \<lparr>status_code = 204, json_body = None\<rparr>),
      ui_reply = (\<lambda>n a. case a of
          ExpectVisible sel t \<Rightarrow> Some (AssertionError ''Locator expected to be visible'')
        | _ \<Rightarrow> None),
      url_reply = (\<lambda>n. ''https://app.workflowpro.com/dashboard''),
      count_reply = (\<lambda>n sel. 0)\<rparr>"

text \<open>
  \<open>runs_ok m x\<close>: on \<open>first_session_fails_world\<close>, started at a clock of 2 or more,
  \<open>m\<close> returns \<open>x\<close> and leaves a clock of 2 or more.
\<close>

definition runs_ok :: "'a prog \<Rightarrow> 'a \<Rightarrow> bool" where
  "runs_ok m x =
     (\<forall>s. 2 \<le> clock s \<longrightarrow>
          fst (m first_session_fails_world s) = Inr x
        \<and> 2 \<le> clock (snd (m first_session_fails_world s)))"

section \<open>Reasoning about traces\<close>

lemma emitsI:
  assumes "\<And>w s. \<exists>evs. trace (snd (m w s)) = trace s @ evs \<and> list_all P evs
        \<and> cleanup_projects (snd (m w s)) = cleanup_projects s
        \<and> created_project_id (snd (m w s)) = created_project_id s"
  shows "emits P m"
  using assms unfolding emits_def by blast

lemma emitsD:
  assumes "emits P m"
  obtains evs where "trace (snd (m w s)) = trace s @ evs" "list_all P evs"
    "cleanup_projects (snd (m w s)) = cleanup_projects s"
    "created_project_id (snd (m w s)) = created_project_id s"
  using assms unfolding emits_def by blast

lemma emits_ret [intro!]: "emits P (ret x)"
  by (simp add: emits_def ret_def)

lemma emits_raise [intro!]: "emits P (raise e)"
  by (simp add: emits_def raise_def)

lemma emits_assert [intro!]: "emits P (assert c msg)"
  by (simp add: assert_def emits_ret emits_raise)

lemma emits_bnd [intro!]:
  assumes "emits P m" and "\<And>x. emits P (f x)"
  shows "emits P (bnd m f)"
proof (rule emitsI)
  fix w s
  obtain r s1 where m: "m w s = (r, s1)" by (cases "m w s")
  from assms(1) obtain evs1 where 1: "trace s1 = trace s @ evs1" "list_all P evs1"
    "cleanup_projects s1 = cleanup_projects s" "created_project_id s1 = created_project_id s"
    using emitsD [of P m w s] m by (metis snd_conv)
  show "\<exists>evs. trace (snd (bnd m f w s)) = trace s @ evs \<and> list_all P evs
        \<and> cleanup_projects (snd (bnd m f w s)) = cleanup_projects s
        \<and> created_project_id (snd (bnd m f w s)) = created_project_id s"
  proof (cases r)
    case (Inl e)
    then show ?thesis using m 1 by (simp add: bnd_def)
  next
    case (Inr x)
    from assms(2) [of x] obtain evs2 where 2: "trace (snd (f x w s1)) = trace s1 @ evs2"
      "list_all P evs2" "cleanup_projects (snd (f x w s1)) = cleanup_projects s1"
      "created_project_id (snd (f x w s1)) = created_project_id s1"
      using emitsD [of P "f x" w s1] by blast
    have "trace (snd (bnd m f w s)) = trace s @ (evs1 @ evs2)"
      using m Inr 1 2 by (simp add: bnd_def)
    moreover have "list_all P (evs1 @ evs2)" using 1 2 by simp
    moreover have "cleanup_projects (snd (bnd m f w s)) = cleanup_projects s"
      using m Inr 1 2 by (simp add: bnd_def)
    moreover have "created_project_id (snd (bnd m f w s)) = created_project_id s"
      using m Inr 1 2 by (simp add: bnd_def)
    ultimately show ?thesis by blast
  qed
qed

lemma emits_attempt [intro!]:
  assumes "emits P m"
  shows "emits P (attempt m)"
  using assms unfolding emits_def attempt_def by (simp add: split_def)

lemma emits_try_finally [intro!]:
  assumes "emits P m" and "emits P fin"
  shows "emits P (try_finally m fin)"
proof -
  have eq: "\<And>w s. snd (try_finally m fin w s) = snd (bnd (attempt m) (\<lambda>_. fin) w s)"
    by (simp add: try_finally_def bnd_def attempt_def split: prod.splits sum.splits)
  have "emits P (bnd (attempt m) (\<lambda>_. fin))"
    using assms by (intro emits_bnd emits_attempt)
  then show ?thesis unfolding emits_def eq .
qed

lemma emits_http [intro]: "P (Http r) \<Longrightarrow> emits P (http r)"
  by (simp add: emits_def http_def emit_def)

lemma emits_ui [intro]: "P (Ui a) \<Longrightarrow> emits P (ui a)"
  by (simp add: emits_def ui_def emit_def)

lemma emits_page_url [intro]: "P ReadUrl \<Longrightarrow> emits P page_url"
  by (simp add: emits_def page_url_def emit_def)

lemma emits_locator_count [intro]: "P (CountLocator sel) \<Longrightarrow> emits P (locator_count sel)"
  by (simp add: emits_def locator_count_def emit_def)

lemma emits_sleep [intro]: "P (Sleep n) \<Longrightarrow> emits P (sleep n)"
  by (simp add: emits_def sleep_def emit_def)

lemma emits_testing_on [intro]: "P (TestingOn p) \<Longrightarrow> emits P (testing_on p)"
  by (simp add: emits_def testing_on_def emit_def)

lemma emits_if [intro!]: "emits P a \<Longrightarrow> emits P b \<Longrightarrow> emits P (if c then a else b)"
  by simp

lemma emits_case_sum [intro!]:
  "(\<And>e. emits P (f e)) \<Longrightarrow> (\<And>x. emits P (g x)) \<Longrightarrow> emits P (case r of Inl e \<Rightarrow> f e | Inr x \<Rightarrow> g x)"
  by (cases r) simp_all

lemma emits_login: "emits browser_event (login email password)"
  unfolding login_def by (intro emits_bnd emits_ui) simp_all

lemma emits_verify_project_in_dashboard:
  "emits browser_event (verify_project_in_dashboard project_name timeout)"
  unfolding verify_project_in_dashboard_def
  by (intro emits_bnd emits_ui emits_page_url emits_if emits_attempt emits_case_sum emits_ret) simp_all

lemma emits_expect_team_members: "emits browser_event (expect_team_members ms)"
  by (induction ms) (auto intro!: emits_ui)

lemma emits_verify_project_details: "emits browser_event (verify_project_details project)"
  unfolding verify_project_details_def
  by (intro emits_bnd emits_ui emits_ret emits_expect_team_members) simp_all

lemma emits_with_playwright:
  "emits browser_event body \<Longrightarrow> emits browser_event (with_playwright body)"
  unfolding with_playwright_def by (intro emits_bnd emits_ui emits_try_finally) simp_all

lemma emits_create_mobile_browser: "emits browser_event (create_mobile_browser device_type)"
  unfolding create_mobile_browser_def
  by (intro emits_with_playwright emits_bnd emits_ui emits_if emits_ret emits_raise) simp_all

lemma emits_test_mobile_interactions: "emits browser_event (test_mobile_interactions project_name)"
  unfolding test_mobile_interactions_def
  by (intro emits_bnd emits_ui emits_if emits_ret emits_locator_count) simp_all

lemma emits_test_mobile_accessibility:
  "emits browser_event (test_mobile_accessibility project_name email password device_type)"
  unfolding test_mobile_accessibility_def
  by (intro emits_bnd emits_try_finally emits_create_mobile_browser emits_login
      emits_verify_project_in_dashboard emits_if emits_test_mobile_interactions emits_ret emits_ui)
     simp_all

lemma emits_test_desktop_platform:
  "emits browser_event (test_desktop_platform platform project_name email password)"
  unfolding test_desktop_platform_def
  by (intro emits_with_playwright emits_bnd emits_try_finally emits_login
      emits_verify_project_in_dashboard emits_ui) simp_all

lemmas flow_consts = COMPANY1_ID_def COMPANY2_ID_def ADMIN_EMAIL_def PASSWORD_def

lemmas prog_defs = bnd_def ret_def raise_def attempt_def try_finally_def http_def ui_def
  page_url_def locator_count_def sleep_def emit_def assert_def testing_on_def

section \<open>Results about APIClient and TenantIsolationTester\<close>

text \<open>
  C9. \<open>delete_project\<close> never raises: for every project id, tenant, world and state it
  returns a boolean. It returns true exactly when the delete request completes with
  status 200, 204 or 404, and false both for every other status and for every exception
  of the transport. It sends exactly one request.
\<close>

theorem delete_project_never_raises:
  "(\<exists>b. fst (delete_project project_id tenant_id w s) = Inr b)
   \<and> (fst (delete_project project_id tenant_id w s) = Inr True) =
       (\<exists>r. http_reply w (clock s) (DeleteProjectRequest project_id tenant_id) = Inr r
            \<and> status_code r \<in> {200, 204, 404})
   \<and> (fst (delete_project project_id tenant_id w s) = Inr False) =
       ((\<exists>r. http_reply w (clock s) (DeleteProjectRequest project_id tenant_id) = Inr r
             \<and> status_code r \<notin> {200, 204, 404})
        \<or> (\<exists>e. http_reply w (clock s) (DeleteProjectRequest project_id tenant_id) = Inl e))
   \<and> trace (snd (delete_project project_id tenant_id w s)) =
       trace s @ [Http (DeleteProjectRequest project_id tenant_id)]"
  by (cases "http_reply w (clock s) (DeleteProjectRequest project_id tenant_id)")
     (auto simp add: delete_project_def bnd_def attempt_def http_def ret_def emit_def)

text \<open>
  C1, as stated, fails: on \<open>timeout_world\<close> the read of tenant \<open>company1\<close> succeeds, the
  read of tenant \<open>company2\<close> is not denied (it times out), and the verdict is true.
\<close>

theorem verify_tenant_isolation_denied_counterexample:
  "fst (verify_tenant_isolation (JInt 7) ''company1'' ''company2'' timeout_world initial_state)
     = Inr True
   \<and> \<not> access_denied (fst (get_project (JInt 7) ''company2'' timeout_world
         (snd (get_project (JInt 7) ''company1'' timeout_world initial_state))))"
  by (simp add: verify_tenant_isolation_def bnd_def attempt_def ret_def get_project_def
      http_def timeout_world_def initial_state_def emit_def response_json_def raise_def
      access_denied_def)

text \<open>
  C1, amended. \<open>verify_tenant_isolation\<close> never raises, and its verdict is true exactly
  when the read as the authorized tenant succeeds and the read as the unauthorized
  tenant, made after it, raises an exception of any kind. So the verdict is false
  whenever the authorized read fails and false whenever the unauthorized read succeeds.
\<close>

theorem verify_tenant_isolation_asymmetry:
  "fst (verify_tenant_isolation project_id a b w s) =
     Inr (\<not> isl (fst (get_project project_id a w s))
          \<and> isl (fst (get_project project_id b w (snd (get_project project_id a w s)))))"
  by (cases "get_project project_id a w s";
      cases "fst (get_project project_id a w s)";
      cases "get_project project_id b w (snd (get_project project_id a w s))";
      cases "fst (get_project project_id b w (snd (get_project project_id a w s)))")
     (auto simp add: verify_tenant_isolation_def bnd_def attempt_def ret_def)

text \<open>
  C10. Whenever the authorized tenant's read succeeds and the unauthorized tenant's read
  raises an exception \<open>e\<close>, whatever \<open>e\<close> is, the verdict is true. In particular there is
  a backend on which the unauthorized read ends in a transport timeout and the verdict
  is true.
\<close>

theorem verify_tenant_isolation_any_exception:
  "(fst (get_project project_id a w s) = Inr pa \<longrightarrow>
    fst (get_project project_id b w (snd (get_project project_id a w s))) = Inl e \<longrightarrow>
    fst (verify_tenant_isolation project_id a b w s) = Inr True)
   \<and> (\<exists>w'. fst (get_project project_id b w' (snd (get_project project_id a w' s)))
              = Inl Timeout
           \<and> fst (verify_tenant_isolation project_id a b w' s) = Inr True)"
proof
  show "fst (get_project project_id a w s) = Inr pa \<longrightarrow>
    fst (get_project project_id b w (snd (get_project project_id a w s))) = Inl e \<longrightarrow>
    fst (verify_tenant_isolation project_id a b w s) = Inr True"
    by (cases "get_project project_id a w s";
        cases "get_project project_id b w (snd (get_project project_id a w s))")
       (auto simp add: verify_tenant_isolation_def bnd_def attempt_def ret_def)
next
  let ?w = "\<lparr>http_reply = (\<lambda>n r. if n = clock s
                then Inr \<lparr>status_code = 200, json_body = Some []\<rparr> else Inl Timeout),
             ui_reply = (\<lambda>n a. None), url_reply = (\<lambda>n. []),
             count_reply = (\<lambda>n sel. 0)\<rparr>"
  have "fst (get_project project_id b ?w (snd (get_project project_id a ?w s))) = Inl Timeout
        \<and> fst (verify_tenant_isolation project_id a b ?w s) = Inr True"
    by (simp add: verify_tenant_isolation_def bnd_def attempt_def ret_def get_project_def
        http_def emit_def response_json_def raise_def)
  then show "\<exists>w'. fst (get_project project_id b w' (snd (get_project project_id a w' s)))
              = Inl Timeout
           \<and> fst (verify_tenant_isolation project_id a b w' s) = Inr True"
    by blast
qed

theorem verify_tenant_isolation_any_exception_witness:
  "fst (get_project (JInt 7) ''company1'' timeout_world initial_state) = Inr []
   \<and> fst (get_project (JInt 7) ''company2'' timeout_world
        (snd (get_project (JInt 7) ''company1'' timeout_world initial_state))) = Inl Timeout
   \<and> fst (verify_tenant_isolation (JInt 7) ''company1'' ''company2'' timeout_world
        initial_state) = Inr True"
proof -
  have h1: "fst (get_project (JInt 7) ''company1'' timeout_world initial_state) = Inr []"
    by (simp add: get_project_def bnd_def http_def timeout_world_def initial_state_def
        emit_def response_json_def ret_def)
  have h2: "fst (get_project (JInt 7) ''company2'' timeout_world
        (snd (get_project (JInt 7) ''company1'' timeout_world initial_state))) = Inl Timeout"
    by (simp add: get_project_def bnd_def http_def timeout_world_def initial_state_def
        emit_def response_json_def ret_def)
  from verify_tenant_isolation_any_exception
    [of "JInt 7" "''company1''" timeout_world initial_state "[]" "''company2''" Timeout]
    h1 h2
  show ?thesis by blast
qed

section \<open>Results about WebUITester\<close>

text \<open>
  C7, as stated, fails: on \<open>list_never_loads_world\<close> the card of project \<open>P1\<close> is not
  visible (the visibility expectation, had it been reached as the third call, would
  have failed), and the check raises the timeout of the wait for the project list
  instead of returning false.
\<close>

theorem verify_project_in_dashboard_raises_counterexample:
  "fst (verify_project_in_dashboard ''P1'' 30000 list_never_loads_world initial_state)
     = Inl (PlaywrightError ''Timeout exceeded'')
   \<and> ui_reply list_never_loads_world 2 (ExpectVisible (ProjectCard ''P1'') 30000)
     = Some (AssertionError ''Locator expected to be visible'')"
  by (simp add: verify_project_in_dashboard_def prog_defs list_never_loads_world_def
      initial_state_def)

text \<open>
  C7, amended. The outcome of the check in a run is decided by the replies to the calls
  of that run, numbered from the clock at which the check starts. On a projects page:
  if the wait for the project list raises, that exception reaches the caller; if it
  completes, the check returns whether the card was found visible by the deadline, so
  false, and no exception, when it was not. On any other page the click on the projects
  link, the wait for the load state and the wait for the project list come first, an
  exception of any of them reaches the caller, and if all three complete the check
  again returns whether the card was found visible.
\<close>

theorem verify_project_in_dashboard_outcome:
  "fst (verify_project_in_dashboard project_name timeout w s) =
     (if contains ''projects'' (url_reply w (clock s))
      then (case ui_reply w (clock s + 1) (WaitForSelector ProjectList timeout) of
              Some e \<Rightarrow> Inl e
            | None \<Rightarrow>
                Inr (ui_reply w (clock s + 2) (ExpectVisible (ProjectCard project_name) timeout)
                       = None))
      else (case ui_reply w (clock s + 1) (Click ProjectsLink) of
              Some e \<Rightarrow> Inl e
            | None \<Rightarrow>
               (case ui_reply w (clock s + 2) (WaitForLoadState ''networkidle'') of
                  Some e \<Rightarrow> Inl e
                | None \<Rightarrow>
                   (case ui_reply w (clock s + 3) (WaitForSelector ProjectList timeout) of
                      Some e \<Rightarrow> Inl e
                    | None \<Rightarrow>
                        Inr (ui_reply w (clock s + 4)
                               (ExpectVisible (ProjectCard project_name) timeout) = None)))))"
  by (simp add: verify_project_in_dashboard_def prog_defs numeral_eq_Suc split: option.splits)

theorem verify_project_in_dashboard_outcome_witness:
  "fst (verify_project_in_dashboard ''P1'' 30000 card_never_visible_world initial_state)
     = Inr False
   \<and> fst (verify_project_in_dashboard ''P1'' 30000 list_never_loads_world initial_state)
     = Inl (PlaywrightError ''Timeout exceeded'')
   \<and> fst (verify_project_in_dashboard ''P1'' 30000 click_fails_world initial_state)
     = Inl (PlaywrightError ''Element is not attached'')"
proof -
  have "fst (verify_project_in_dashboard ''P1'' 30000 card_never_visible_world initial_state)
     = Inr False"
    by (simp add: verify_project_in_dashboard_outcome card_never_visible_world_def
        initial_state_def)
  moreover have "fst (verify_project_in_dashboard ''P1'' 30000 list_never_loads_world
      initial_state) = Inl (PlaywrightError ''Timeout exceeded'')"
    by (simp add: verify_project_in_dashboard_outcome list_never_loads_world_def
        initial_state_def)
  moreover have "fst (verify_project_in_dashboard ''P1'' 30000 click_fails_world
      initial_state) = Inl (PlaywrightError ''Element is not attached'')"
    by (simp add: verify_project_in_dashboard_outcome click_fails_world_def
        initial_state_def)
  ultimately show ?thesis by simp
qed

section \<open>Results about BrowserStackIntegration\<close>

lemma testing_on_events_append:
  "testing_on_events (xs @ ys) = testing_on_events xs @ testing_on_events ys"
  by (induction xs rule: testing_on_events.induct) simp_all

lemma testing_on_events_browser:
  "list_all browser_event evs \<Longrightarrow> testing_on_events evs = []"
  by (induction evs rule: testing_on_events.induct) simp_all

lemma platform_test_trace:
  "testing_on_events (trace (snd (platform_test p n e pw w s))) = testing_on_events (trace s) @ [p]"
proof -
  let ?body = "if contains ''mobile'' (lower p) \<or> contains ''android'' p \<or> contains ''iphone'' p
       then test_mobile_accessibility n e pw (if contains ''ios'' p then ''iphone'' else ''android'')
       else test_desktop_platform p n e pw"
  have b: "emits browser_event ?body"
    by (simp add: emits_test_mobile_accessibility emits_test_desktop_platform)
  let ?s1 = "emit (TestingOn p) s"
  obtain evs where "trace (snd (?body w ?s1)) = trace ?s1 @ evs" "list_all browser_event evs"
    using emitsD [OF b, of w ?s1] by blast
  moreover have "snd (platform_test p n e pw w s) = snd (?body w ?s1)"
    by (simp add: platform_test_def bnd_def testing_on_def)
  ultimately show ?thesis
    by (simp add: emit_def testing_on_events_append testing_on_events_browser)
qed

lemma update_keys: "fst ` set (AList.update k v al) = insert k (fst ` set al)"
  by (induction al) auto

lemma loop_all:
  "(\<exists>res. fst (cross_platform_loop ps n e pw results w s) = Inr res
        \<and> fst ` set res = fst ` set results \<union> set ps)
   \<and> testing_on_events (trace (snd (cross_platform_loop ps n e pw results w s)))
       = testing_on_events (trace s) @ ps"
proof (induction ps arbitrary: results s)
  case Nil
  then show ?case by (simp add: ret_def)
next
  case (Cons p ps)
  obtain r s1 where pt: "platform_test p n e pw w s = (r, s1)"
    by (cases "platform_test p n e pw w s")
  have tr: "testing_on_events (trace s1) = testing_on_events (trace s) @ [p]"
    using platform_test_trace [of p n e pw w s] pt by simp
  let ?results = "AList.update p (case r of Inr success \<Rightarrow> success | Inl err \<Rightarrow> False) results"
  have step: "cross_platform_loop (p # ps) n e pw results w s
      = cross_platform_loop ps n e pw ?results w s1"
    using pt by (cases r) (simp_all add: bnd_def attempt_def)
  from Cons.IH [of ?results s1] tr show ?case
    unfolding step by (auto simp add: update_keys)
qed

lemma loop_keeps:
  "p \<notin> set ps \<Longrightarrow> fst (cross_platform_loop ps n e pw results w s) = Inr res \<Longrightarrow>
   map_of res p = map_of results p"
proof (induction ps arbitrary: results s)
  case Nil
  then show ?case by (simp add: ret_def)
next
  case (Cons q ps)
  obtain r s1 where pt: "platform_test q n e pw w s = (r, s1)"
    by (cases "platform_test q n e pw w s")
  let ?results = "AList.update q (case r of Inr success \<Rightarrow> success | Inl err \<Rightarrow> False) results"
  have step: "cross_platform_loop (q # ps) n e pw results w s
      = cross_platform_loop ps n e pw ?results w s1"
    using pt by (cases r) (simp_all add: bnd_def attempt_def)
  from Cons.prems have "p \<notin> set ps" "p \<noteq> q" by auto
  with Cons.IH [of ?results s1] Cons.prems(2) show ?case
    unfolding step by (simp add: update_conv')
qed

lemma loop_head:
  assumes "p \<notin> set rest"
  shows "\<exists>res. fst (cross_platform_loop (p # rest) n e pw results w s) = Inr res
     \<and> map_of res p = Some (fst (platform_test p n e pw w s) = Inr True)"
proof -
  obtain r s1 where pt: "platform_test p n e pw w s = (r, s1)"
    by (cases "platform_test p n e pw w s")
  let ?results = "AList.update p (case r of Inr success \<Rightarrow> success | Inl err \<Rightarrow> False) results"
  have step: "cross_platform_loop (p # rest) n e pw results w s
      = cross_platform_loop rest n e pw ?results w s1"
    using pt by (cases r) (simp_all add: bnd_def attempt_def)
  obtain res where res: "fst (cross_platform_loop rest n e pw ?results w s1) = Inr res"
    using loop_all [of rest n e pw ?results w s1] by blast
  from loop_keeps [OF assms res] have "map_of res p = Some (case r of Inr success \<Rightarrow> success | Inl err \<Rightarrow> False)"
    by (simp add: update_conv')
  moreover have "(case r of Inr success \<Rightarrow> success | Inl err \<Rightarrow> False) = (r = Inr True)"
    by (cases r) auto
  ultimately show ?thesis using res pt unfolding step by simp
qed

lemma update_new: "k \<notin> fst ` set al \<Longrightarrow> AList.update k v al = al @ [(k, v)]"
  by (induction al) auto

lemma loop_order:
  "distinct ps \<Longrightarrow> set ps \<inter> fst ` set results = {} \<Longrightarrow>
   fst (cross_platform_loop ps n e pw results w s) = Inr res \<Longrightarrow>
   map fst res = map fst results @ ps"
proof (induction ps arbitrary: results s)
  case Nil
  then show ?case by (simp add: ret_def)
next
  case (Cons q ps)
  obtain r s1 where pt: "platform_test q n e pw w s = (r, s1)"
    by (cases "platform_test q n e pw w s")
  let ?b = "case r of Inr success \<Rightarrow> success | Inl err \<Rightarrow> False"
  let ?results = "AList.update q ?b results"
  have step: "cross_platform_loop (q # ps) n e pw results w s
      = cross_platform_loop ps n e pw ?results w s1"
    using pt by (cases r) (simp_all add: bnd_def attempt_def)
  from Cons.prems have q: "q \<notin> fst ` set results" by auto
  then have upd: "?results = results @ [(q, ?b)]" by (rule update_new)
  have "set ps \<inter> fst ` set ?results = {}"
    using Cons.prems(1,2) by (auto simp add: update_keys)
  with Cons.IH [of ?results s1] Cons.prems show ?case
    unfolding step by (simp add: upd)
qed

lemma lower_platforms:
  "lower ''chrome_windows'' = ''chrome_windows''"
  "lower ''safari_mac'' = ''safari_mac''"
  "lower ''chrome_android'' = ''chrome_android''"
  "lower ''safari_ios'' = ''safari_ios''"
  by code_simp+

lemma recorded_value:
  "(case r of Inr success \<Rightarrow> success | Inl err \<Rightarrow> False) = (r = Inr True)"
  by (cases r) auto

lemma loop_exact:
  "cross_platform_loop ps n e pw results w s =
     (Inr (fold (\<lambda>(p, r). AList.update p (r = Inr True))
              (zip ps (check_outcomes ps n e pw w s)) results),
      after_checks ps n e pw w s)"
proof (induction ps arbitrary: results s)
  case Nil
  show ?case by (simp add: ret_def)
next
  case (Cons p ps)
  obtain r s1 where pt: "platform_test p n e pw w s = (r, s1)"
    by (cases "platform_test p n e pw w s")
  have step: "cross_platform_loop (p # ps) n e pw results w s
      = cross_platform_loop ps n e pw (AList.update p (r = Inr True) results) w s1"
    using pt by (cases r) (auto simp add: bnd_def attempt_def)
  show ?case unfolding step Cons.IH using pt by simp
qed

lemma length_check_outcomes: "length (check_outcomes ps n e pw w s) = length ps"
  by (induction ps arbitrary: s) simp_all

lemma fold_update_fresh:
  "distinct ps \<Longrightarrow> set ps \<inter> fst ` set results = {} \<Longrightarrow> length outs = length ps \<Longrightarrow>
   fold (\<lambda>(p, r). AList.update p (f r)) (zip ps outs) results
     = results @ zip ps (map f outs)"
proof (induction ps arbitrary: results outs)
  case Nil
  then show ?case by simp
next
  case (Cons p ps)
  then obtain r rest where outs: "outs = r # rest" by (cases outs) simp_all
  from Cons.prems have fresh: "p \<notin> fst ` set results" by auto
  have "set ps \<inter> fst ` set (results @ [(p, f r)]) = {}"
    using Cons.prems(1,2) by auto
  with Cons.IH [of "results @ [(p, f r)]" rest] Cons.prems outs
  show ?case by (simp add: update_new [OF fresh])
qed

lemma test_cross_platform_exact:
  "test_cross_platform n e pw w s =
     (Inr (zip platforms (map (\<lambda>r. r = Inr True) (check_outcomes platforms n e pw w s))),
      after_checks platforms n e pw w s)"
proof -
  have "distinct platforms" by (simp add: platforms_def)
  then have "fold (\<lambda>(p, r). AList.update p (r = Inr True))
              (zip platforms (check_outcomes platforms n e pw w s)) []
     = [] @ zip platforms (map (\<lambda>r. r = Inr True) (check_outcomes platforms n e pw w s))"
    by (intro fold_update_fresh) (simp_all add: length_check_outcomes)
  then show ?thesis by (simp add: test_cross_platform_def loop_exact)
qed

lemma runs_ok_ret: "runs_ok (ret x) x"
  by (simp add: runs_ok_def ret_def)

lemma runs_ok_bnd:
  assumes "runs_ok m x" and "runs_ok (f x) y"
  shows "runs_ok (bnd m f) y"
  unfolding runs_ok_def
proof (intro allI impI)
  fix s :: run_state
  assume c: "2 \<le> clock s"
  obtain r s1 where m: "m first_session_fails_world s = (r, s1)"
    by (cases "m first_session_fails_world s")
  with assms(1) c have "r = Inr x" "2 \<le> clock s1"
    unfolding runs_ok_def by (metis fst_conv, metis snd_conv)
  with assms(2) m
  show "fst (bnd m f first_session_fails_world s) = Inr y
      \<and> 2 \<le> clock (snd (bnd m f first_session_fails_world s))"
    unfolding runs_ok_def by (simp add: bnd_def)
qed

lemma runs_ok_try_finally:
  assumes "runs_ok m x" and "runs_ok fin ()"
  shows "runs_ok (try_finally m fin) x"
  unfolding runs_ok_def
proof (intro allI impI)
  fix s :: run_state
  assume c: "2 \<le> clock s"
  obtain r s1 where m: "m first_session_fails_world s = (r, s1)"
    by (cases "m first_session_fails_world s")
  with assms(1) c have r: "r = Inr x" "2 \<le> clock s1"
    unfolding runs_ok_def by (metis fst_conv, metis snd_conv)
  obtain r2 s2 where f: "fin first_session_fails_world s1 = (r2, s2)"
    by (cases "fin first_session_fails_world s1")
  with assms(2) r have "r2 = Inr ()" "2 \<le> clock s2"
    unfolding runs_ok_def by (metis fst_conv, metis snd_conv)
  with m f r
  show "fst (try_finally m fin first_session_fails_world s) = Inr x
      \<and> 2 \<le> clock (snd (try_finally m fin first_session_fails_world s))"
    by (simp add: try_finally_def)
qed

lemma runs_ok_attempt: "runs_ok m x \<Longrightarrow> runs_ok (attempt m) (Inr x)"
  unfolding runs_ok_def attempt_def by (simp add: split_def)

lemma runs_ok_ui: "runs_ok (ui a) ()"
  by (simp add: runs_ok_def ui_def emit_def first_session_fails_world_def)

lemma runs_ok_page_url: "runs_ok page_url ''https://app.workflowpro.com/dashboard''"
  by (simp add: runs_ok_def page_url_def emit_def first_session_fails_world_def)

lemma runs_ok_locator_count: "runs_ok (locator_count sel) 0"
  by (simp add: runs_ok_def locator_count_def emit_def first_session_fails_world_def)

lemma runs_ok_testing_on: "runs_ok (testing_on p) ()"
  by (simp add: runs_ok_def testing_on_def emit_def)

lemma runs_ok_login: "runs_ok (login email password) ()"
  unfolding login_def by (rule runs_ok_bnd [OF runs_ok_ui] runs_ok_ui)+

lemma runs_ok_verify: "runs_ok (verify_project_in_dashboard project_name timeout) True"
  unfolding verify_project_in_dashboard_def
  apply (rule runs_ok_bnd [OF runs_ok_page_url])
  apply simp
  apply (rule runs_ok_bnd [OF runs_ok_bnd [OF runs_ok_ui runs_ok_ui]])
  apply (rule runs_ok_bnd [OF runs_ok_ui])
  apply (rule runs_ok_bnd [OF runs_ok_attempt [OF runs_ok_ui]])
  apply (simp add: runs_ok_ret)
  done

lemma runs_ok_interactions: "runs_ok (test_mobile_interactions project_name) ()"
  unfolding test_mobile_interactions_def
  apply (rule runs_ok_bnd [OF runs_ok_ui])
  apply (rule runs_ok_bnd [OF runs_ok_ui])
  apply (rule runs_ok_bnd [OF runs_ok_locator_count])
  apply (simp add: runs_ok_ret)
  done

lemma runs_ok_with_playwright: "runs_ok body x \<Longrightarrow> runs_ok (with_playwright body) x"
  unfolding with_playwright_def
  by (rule runs_ok_bnd [OF runs_ok_ui]) (rule runs_ok_try_finally [OF _ runs_ok_ui])

lemma runs_ok_desktop: "runs_ok (test_desktop_platform platform project_name email password) True"
  unfolding test_desktop_platform_def
  apply (rule runs_ok_with_playwright)
  apply (rule runs_ok_bnd [OF runs_ok_ui])
  apply (rule runs_ok_bnd [OF runs_ok_ui])
  apply (rule runs_ok_try_finally [OF _ runs_ok_ui])
  apply (rule runs_ok_bnd [OF runs_ok_login])
  apply (rule runs_ok_verify)
  done

lemma runs_ok_mobile:
  "device_type \<in> {''iphone'', ''android''} \<Longrightarrow>
   runs_ok (test_mobile_accessibility project_name email password device_type) True"
  unfolding test_mobile_accessibility_def create_mobile_browser_def
  apply (rule runs_ok_bnd [where x = "()"])
   apply (rule runs_ok_with_playwright)
   apply (simp only: if_True)
   apply (rule runs_ok_bnd [OF runs_ok_ret])
   apply (rule runs_ok_bnd [OF runs_ok_ui])
   apply (rule runs_ok_bnd [OF runs_ok_ui])
   apply (rule runs_ok_ui)
  apply (rule runs_ok_try_finally [OF _ runs_ok_ui])
  apply (rule runs_ok_bnd [OF runs_ok_login])
  apply (rule runs_ok_bnd [OF runs_ok_verify])
  apply (simp only: if_True)
  apply (rule runs_ok_bnd [OF runs_ok_interactions])
  apply (rule runs_ok_ret)
  done

lemma runs_ok_platform_test: "runs_ok (platform_test platform project_name email password) True"
  unfolding platform_test_def
  by (rule runs_ok_bnd [OF runs_ok_testing_on])
     (simp add: runs_ok_desktop runs_ok_mobile)

lemma check_outcomes_ok:
  "2 \<le> clock s \<Longrightarrow>
   check_outcomes ps project_name email password first_session_fails_world s
     = replicate (length ps) (Inr True)"
proof (induction ps arbitrary: s)
  case Nil
  show ?case by simp
next
  case (Cons p ps)
  from runs_ok_platform_test [of p project_name email password] Cons.prems
  have "fst (platform_test p project_name email password first_session_fails_world s) = Inr True"
    and "2 \<le> clock (snd (platform_test p project_name email password
            first_session_fails_world s))"
    unfolding runs_ok_def by blast+
  with Cons.IH show ?case by simp
qed

text \<open>
  C5. For every sequence of platforms the loop of \<open>test_cross_platform\<close> never raises.
  Its result is the dictionary it started with, updated for each platform in turn with
  the verdict of that platform's own check, where the checks are run once each, one
  after the other, each to its end whatever the earlier ones did: the verdict is true
  exactly when the check returned true, hence false when it raised; and the state it
  leaves is the state left by the last check. \<open>test_cross_platform\<close> itself returns one
  entry for each of the four declared platforms, in their order, with these verdicts.
  The trace holds the line \<^verbatim>\<open>Testing on {platform}\<close> once per platform, in order.
\<close>

theorem test_cross_platform_isolates_failures:
  "cross_platform_loop ps project_name email password results w s =
     (Inr (fold (\<lambda>(p, r). AList.update p (r = Inr True))
              (zip ps (check_outcomes ps project_name email password w s)) results),
      after_checks ps project_name email password w s)
   \<and> test_cross_platform project_name email password w s =
     (Inr (zip platforms
             (map (\<lambda>r. r = Inr True)
                (check_outcomes platforms project_name email password w s))),
      after_checks platforms project_name email password w s)
   \<and> (\<exists>res. fst (cross_platform_loop ps project_name email password results w s) = Inr res
        \<and> fst ` set res = fst ` set results \<union> set ps)
   \<and> testing_on_events
         (trace (snd (cross_platform_loop ps project_name email password results w s)))
       = testing_on_events (trace s) @ ps
   \<and> (p \<notin> set rest \<longrightarrow>
        (\<exists>res. fst (cross_platform_loop (p # rest) project_name email password results w s)
                 = Inr res
             \<and> map_of res p
                 = Some (fst (platform_test p project_name email password w s) = Inr True)))
   \<and> (\<exists>res. fst (test_cross_platform project_name email password w s) = Inr res
        \<and> map fst res = platforms)"
proof (intro conjI impI)
  show "cross_platform_loop ps project_name email password results w s =
     (Inr (fold (\<lambda>(p, r). AList.update p (r = Inr True))
              (zip ps (check_outcomes ps project_name email password w s)) results),
      after_checks ps project_name email password w s)"
    by (rule loop_exact)
  show "test_cross_platform project_name email password w s =
     (Inr (zip platforms
             (map (\<lambda>r. r = Inr True)
                (check_outcomes platforms project_name email password w s))),
      after_checks platforms project_name email password w s)"
    by (rule test_cross_platform_exact)
  show "\<exists>res. fst (cross_platform_loop ps project_name email password results w s) = Inr res
        \<and> fst ` set res = fst ` set results \<union> set ps"
    using loop_all [of ps project_name email password results w s] by blast
  show "testing_on_events
         (trace (snd (cross_platform_loop ps project_name email password results w s)))
       = testing_on_events (trace s) @ ps"
    using loop_all [of ps project_name email password results w s] by blast
  show "\<exists>res. fst (cross_platform_loop (p # rest) project_name email password results w s)
                 = Inr res
             \<and> map_of res p
                 = Some (fst (platform_test p project_name email password w s) = Inr True)"
    if "p \<notin> set rest"
    using that by (rule loop_head)
  obtain res where res: "fst (test_cross_platform project_name email password w s) = Inr res"
    using loop_all [of platforms project_name email password "[]" w s]
    unfolding test_cross_platform_def by blast
  have "distinct platforms" by (simp add: platforms_def)
  then have "map fst res = platforms"
    using loop_order [of platforms "[]" project_name email password w s res] res
    unfolding test_cross_platform_def by simp
  with res show "\<exists>res. fst (test_cross_platform project_name email password w s) = Inr res
        \<and> map fst res = platforms"
    by blast
qed

theorem test_cross_platform_isolates_failures_witness:
  "''chrome_windows'' \<notin> set [''safari_mac'', ''chrome_android'', ''safari_ios'']
   \<and> check_outcomes platforms ''P1'' ''admin@company1.com'' ''password123''
        first_session_fails_world initial_state
       = [Inl (PlaywrightError ''Executable not found''), Inr True, Inr True, Inr True]
   \<and> fst (test_cross_platform ''P1'' ''admin@company1.com'' ''password123''
          first_session_fails_world initial_state)
       = Inr [(''chrome_windows'', False), (''safari_mac'', True),
              (''chrome_android'', True), (''safari_ios'', True)]
   \<and> (\<exists>res. fst (cross_platform_loop platforms ''P1'' ''admin@company1.com''
                 ''password123'' [] first_session_fails_world initial_state) = Inr res
          \<and> map_of res ''chrome_windows'' = Some False)"
proof -
  let ?w = first_session_fails_world
  let ?t = "platform_test ''chrome_windows'' ''P1'' ''admin@company1.com'' ''password123''
              ?w initial_state"
  have h: "''chrome_windows'' \<notin> set [''safari_mac'', ''chrome_android'', ''safari_ios'']"
    by simp
  have t: "fst ?t = Inl (PlaywrightError ''Executable not found'')" "2 \<le> clock (snd ?t)"
    by (simp_all add: platform_test_def lower_platforms test_desktop_platform_def
        with_playwright_def prog_defs first_session_fails_world_def initial_state_def)
  have outs: "check_outcomes platforms ''P1'' ''admin@company1.com'' ''password123''
        ?w initial_state
       = [Inl (PlaywrightError ''Executable not found''), Inr True, Inr True, Inr True]"
    using t check_outcomes_ok [OF t(2),
        of "[''safari_mac'', ''chrome_android'', ''safari_ios'']" "''P1''"
          "''admin@company1.com''" "''password123''"]
    by (simp add: platforms_def)
  note inst = test_cross_platform_isolates_failures
    [of platforms "''P1''" "''admin@company1.com''" "''password123''" "[]"
      ?w initial_state "''chrome_windows''"
      "[''safari_mac'', ''chrome_android'', ''safari_ios'']"]
  from inst have "test_cross_platform ''P1'' ''admin@company1.com'' ''password123''
      ?w initial_state =
     (Inr (zip platforms
             (map (\<lambda>r. r = Inr True)
                (check_outcomes platforms ''P1'' ''admin@company1.com'' ''password123''
                   ?w initial_state))),
      after_checks platforms ''P1'' ''admin@company1.com'' ''password123'' ?w initial_state)"
    by blast
  then have res: "fst (test_cross_platform ''P1'' ''admin@company1.com'' ''password123''
          ?w initial_state)
       = Inr [(''chrome_windows'', False), (''safari_mac'', True),
              (''chrome_android'', True), (''safari_ios'', True)]"
    unfolding outs by (simp add: platforms_def)
  from inst h t(1)
  have "\<exists>res. fst (cross_platform_loop (''chrome_windows''
            # [''safari_mac'', ''chrome_android'', ''safari_ios'']) ''P1''
            ''admin@company1.com'' ''password123'' [] ?w initial_state) = Inr res
          \<and> map_of res ''chrome_windows'' = Some False"
    by simp
  then have hd: "\<exists>res. fst (cross_platform_loop platforms ''P1'' ''admin@company1.com''
                 ''password123'' [] ?w initial_state) = Inr res
          \<and> map_of res ''chrome_windows'' = Some False"
    by (simp add: platforms_def)
  from h outs res hd show ?thesis by blast
qed

section \<open>Results about LoginPage\<close>

lemma navigate_attempt_invocations:
  "invocations (trace (snd (navigate_attempt w s))) = Suc (invocations (trace s))"
  by (simp add: navigate_attempt_def prog_defs invocations_def split: option.splits)

lemma sleep_invocations:
  "invocations (trace (snd (sleep n w s))) = invocations (trace s)"
  by (simp add: prog_defs invocations_def)

lemma navigate_loop_step:
  "navigate_loop n (a # rest) w s =
     (case navigate_attempt w s of
        (Inr x, s1) \<Rightarrow> (Inr (), s1)
      | (Inl e, s1) \<Rightarrow>
          if a = n - 1 then (Inl e, s1)
          else navigate_loop n rest w (snd (sleep 2 w s1)))"
  by (simp add: bnd_def attempt_def ret_def raise_def sleep_def split: prod.splits sum.splits)

lemma navigate_loop_bound:
  "invocations (trace (snd (navigate_loop n xs w s))) \<le> invocations (trace s) + length xs"
proof (induction xs arbitrary: s)
  case Nil
  then show ?case by (simp add: ret_def)
next
  case (Cons a xs)
  obtain r s1 where na: "navigate_attempt w s = (r, s1)" by (cases "navigate_attempt w s")
  have s1: "invocations (trace s1) = Suc (invocations (trace s))"
    using navigate_attempt_invocations [of w s] na by simp
  show ?case
  proof (cases r)
    case (Inr x)
    then show ?thesis using na s1 by (simp add: navigate_loop_step del: navigate_loop.simps)
  next
    case (Inl e)
    show ?thesis
    proof (cases "a = n - 1")
      case True
      then show ?thesis using na s1 Inl by (simp add: navigate_loop_step del: navigate_loop.simps)
    next
      case False
      have "invocations (trace (snd (navigate_loop n xs w (snd (sleep 2 w s1)))))
          \<le> invocations (trace (snd (sleep 2 w s1))) + length xs"
        by (rule Cons.IH)
      then show ?thesis using na s1 Inl False
        by (simp add: navigate_loop_step sleep_invocations del: navigate_loop.simps)
    qed
  qed
qed

lemma navigate_loop_succeeds:
  "a + k < n \<Longrightarrow> (\<forall>i<k. isl (fst (nth_invocation i w s))) \<Longrightarrow>
   fst (nth_invocation k w s) = Inr () \<Longrightarrow>
   fst (navigate_loop n [a..<n] w s) = Inr ()
   \<and> invocations (trace (snd (navigate_loop n [a..<n] w s))) = invocations (trace s) + k + 1"
proof (induction k arbitrary: a s)
  case 0
  obtain r s1 where na: "navigate_attempt w s = (r, s1)" by (cases "navigate_attempt w s")
  from 0 have r: "r = Inr ()" using na by simp
  from 0 have "[a..<n] = a # [Suc a..<n]" by (simp add: upt_conv_Cons)
  then show ?case using na r navigate_attempt_invocations [of w s]
    by (simp add: navigate_loop_step del: navigate_loop.simps)
next
  case (Suc k)
  obtain r s1 where na: "navigate_attempt w s = (r, s1)" by (cases "navigate_attempt w s")
  from Suc.prems(2) have "isl (fst (nth_invocation 0 w s))" by blast
  then obtain e where r: "r = Inl e" using na by (cases r) simp_all
  from Suc.prems(1) have up: "[a..<n] = a # [Suc a..<n]" and ne: "a \<noteq> n - 1"
    by (simp_all add: upt_conv_Cons)
  let ?s2 = "snd (sleep 2 w s1)"
  have "\<forall>i<k. isl (fst (nth_invocation i w ?s2))"
    using Suc.prems(2) na by (metis Suc_less_eq nth_invocation.simps(2) snd_conv)
  moreover have "fst (nth_invocation k w ?s2) = Inr ()"
    using Suc.prems(3) na by simp
  moreover have "Suc a + k < n" using Suc.prems(1) by simp
  ultimately have "fst (navigate_loop n [Suc a..<n] w ?s2) = Inr ()
     \<and> invocations (trace (snd (navigate_loop n [Suc a..<n] w ?s2)))
         = invocations (trace ?s2) + k + 1"
    using Suc.IH [of "Suc a" ?s2] by blast
  then show ?case using na r ne navigate_attempt_invocations [of w s]
    unfolding up by (simp add: navigate_loop_step sleep_invocations del: navigate_loop.simps)
qed

lemma navigate_loop_exhausted:
  "a + k = n \<Longrightarrow> 0 < k \<Longrightarrow> (\<forall>i<k. isl (fst (nth_invocation i w s))) \<Longrightarrow>
   fst (navigate_loop n [a..<n] w s) = fst (nth_invocation (k - 1) w s)
   \<and> invocations (trace (snd (navigate_loop n [a..<n] w s))) = invocations (trace s) + k"
proof (induction k arbitrary: a s)
  case 0
  then show ?case by simp
next
  case (Suc k)
  obtain r s1 where na: "navigate_attempt w s = (r, s1)" by (cases "navigate_attempt w s")
  from Suc.prems(3) have "isl (fst (nth_invocation 0 w s))" by blast
  then obtain e where r: "r = Inl e" using na by (cases r) simp_all
  from Suc.prems(1) have up: "[a..<n] = a # [Suc a..<n]" by (simp add: upt_conv_Cons)
  show ?case
  proof (cases k)
    case 0
    then have "a = n - 1" using Suc.prems(1) by simp
    then show ?thesis using na r 0 navigate_attempt_invocations [of w s]
      unfolding up by (simp add: navigate_loop_step del: navigate_loop.simps)
  next
    case (Suc k')
    then have ne: "a \<noteq> n - 1" using Suc.prems(1) by simp
    let ?s2 = "snd (sleep 2 w s1)"
    have "\<forall>i<k. isl (fst (nth_invocation i w ?s2))"
      using Suc.prems(3) na by (metis Suc_less_eq nth_invocation.simps(2) snd_conv)
    moreover have "Suc a + k = n" using Suc.prems(1) by simp
    moreover have "0 < k" using Suc by simp
    ultimately have "fst (navigate_loop n [Suc a..<n] w ?s2) = fst (nth_invocation (k - 1) w ?s2)
       \<and> invocations (trace (snd (navigate_loop n [Suc a..<n] w ?s2)))
           = invocations (trace ?s2) + k"
      using Suc.IH [of "Suc a" ?s2] by blast
    then show ?thesis using na r ne Suc navigate_attempt_invocations [of w s]
      unfolding up by (simp add: navigate_loop_step sleep_invocations del: navigate_loop.simps)
  qed
qed

text \<open>
  C8. For every value of \<^verbatim>\<open>max_retries\<close> the operation is invoked at most that many
  times. If it fails on its first \<open>k < max_retries\<close> invocations and succeeds on the
  next one, the method returns normally after exactly \<open>k + 1\<close> invocations. If all
  \<open>max_retries\<close> invocations fail, the method raises the error of the last one, after
  exactly \<open>max_retries\<close> invocations. \<open>navigate_to_login\<close> is the case
  \<open>max_retries = 3\<close>.
\<close>

theorem navigate_to_login_retry_bound:
  "invocations (trace (snd (navigate_with_retries max_retries w s)))
     \<le> invocations (trace s) + max_retries
   \<and> (k < max_retries \<and> (\<forall>i<k. isl (fst (nth_invocation i w s)))
        \<and> fst (nth_invocation k w s) = Inr ()
      \<longrightarrow> fst (navigate_with_retries max_retries w s) = Inr ()
        \<and> invocations (trace (snd (navigate_with_retries max_retries w s)))
            = invocations (trace s) + k + 1)
   \<and> (0 < max_retries \<and> (\<forall>i<max_retries. isl (fst (nth_invocation i w s)))
      \<longrightarrow> fst (navigate_with_retries max_retries w s)
            = fst (nth_invocation (max_retries - 1) w s)
        \<and> invocations (trace (snd (navigate_with_retries max_retries w s)))
            = invocations (trace s) + max_retries)
   \<and> navigate_to_login = navigate_with_retries 3"
proof (intro conjI impI)
  show "invocations (trace (snd (navigate_with_retries max_retries w s)))
     \<le> invocations (trace s) + max_retries"
    using navigate_loop_bound [of max_retries "[0..<max_retries]" w s]
    by (simp add: navigate_with_retries_def)
next
  assume a: "k < max_retries \<and> (\<forall>i<k. isl (fst (nth_invocation i w s)))
        \<and> fst (nth_invocation k w s) = Inr ()"
  then have "fst (navigate_loop max_retries [0..<max_retries] w s) = Inr ()
     \<and> invocations (trace (snd (navigate_loop max_retries [0..<max_retries] w s)))
         = invocations (trace s) + k + 1"
    using navigate_loop_succeeds [of 0 k max_retries w s] by simp
  then show "fst (navigate_with_retries max_retries w s) = Inr ()"
    and "invocations (trace (snd (navigate_with_retries max_retries w s)))
            = invocations (trace s) + k + 1"
    by (simp_all add: navigate_with_retries_def)
next
  assume a: "0 < max_retries \<and> (\<forall>i<max_retries. isl (fst (nth_invocation i w s)))"
  then have "fst (navigate_loop max_retries [0..<max_retries] w s)
       = fst (nth_invocation (max_retries - 1) w s)
     \<and> invocations (trace (snd (navigate_loop max_retries [0..<max_retries] w s)))
         = invocations (trace s) + max_retries"
    using navigate_loop_exhausted [of 0 max_retries max_retries w s] by simp
  then show "fst (navigate_with_retries max_retries w s)
            = fst (nth_invocation (max_retries - 1) w s)"
    and "invocations (trace (snd (navigate_with_retries max_retries w s)))
            = invocations (trace s) + max_retries"
    by (simp_all add: navigate_with_retries_def)
next
  show "navigate_to_login = navigate_with_retries 3"
    by (rule navigate_to_login_def)
qed

theorem navigate_to_login_retry_bound_witness:
  "isl (fst (nth_invocation 0 flaky_navigation_world initial_state))
   \<and> isl (fst (nth_invocation (Suc 0) flaky_navigation_world initial_state))
   \<and> fst (nth_invocation (Suc (Suc 0)) flaky_navigation_world initial_state) = Inr ()
   \<and> fst (navigate_to_login flaky_navigation_world initial_state) = Inr ()
   \<and> invocations (trace (snd (navigate_to_login flaky_navigation_world initial_state))) = 3
   \<and> isl (fst (nth_invocation 0 unreachable_site_world initial_state))
   \<and> isl (fst (nth_invocation (Suc 0) unreachable_site_world initial_state))
   \<and> isl (fst (nth_invocation (Suc (Suc 0)) unreachable_site_world initial_state))
   \<and> fst (navigate_to_login unreachable_site_world initial_state)
       = Inl (PlaywrightError ''Name not resolved'')
   \<and> invocations (trace (snd (navigate_to_login unreachable_site_world initial_state))) = 3"
proof -
  have f: "isl (fst (nth_invocation 0 flaky_navigation_world initial_state))"
    "isl (fst (nth_invocation (Suc 0) flaky_navigation_world initial_state))"
    "fst (nth_invocation (Suc (Suc 0)) flaky_navigation_world initial_state) = Inr ()"
    by (simp_all add: navigate_attempt_def prog_defs flaky_navigation_world_def
        initial_state_def)
  have u: "isl (fst (nth_invocation 0 unreachable_site_world initial_state))"
    "isl (fst (nth_invocation (Suc 0) unreachable_site_world initial_state))"
    "isl (fst (nth_invocation (Suc (Suc 0)) unreachable_site_world initial_state))"
    "fst (nth_invocation (Suc (Suc 0)) unreachable_site_world initial_state)
       = Inl (PlaywrightError ''Name not resolved'')"
    by (simp_all add: navigate_attempt_def prog_defs unreachable_site_world_def
        initial_state_def)
  have i0: "invocations (trace initial_state) = 0"
    by (simp add: invocations_def initial_state_def)
  have fa: "\<forall>i<Suc (Suc 0). isl (fst (nth_invocation i flaky_navigation_world initial_state))"
    using f by (simp add: less_Suc_eq)
  have ua: "\<forall>i<3. isl (fst (nth_invocation i unreachable_site_world initial_state))"
    using u by (simp add: less_Suc_eq numeral_3_eq_3)
  have lt: "Suc (Suc 0) < (3::nat)" "0 < (3::nat)" by simp_all
  from navigate_to_login_retry_bound
    [of 3 flaky_navigation_world initial_state "Suc (Suc 0)"] lt fa f(3)
  have "fst (navigate_with_retries 3 flaky_navigation_world initial_state) = Inr ()
    \<and> invocations (trace (snd (navigate_with_retries 3 flaky_navigation_world
          initial_state))) = invocations (trace initial_state) + Suc (Suc 0) + 1"
    by blast
  then have r1: "fst (navigate_to_login flaky_navigation_world initial_state) = Inr ()
    \<and> invocations (trace (snd (navigate_to_login flaky_navigation_world initial_state))) = 3"
    unfolding navigate_to_login_def i0 by simp
  from navigate_to_login_retry_bound
    [of 3 unreachable_site_world initial_state 0] lt ua
  have "fst (navigate_with_retries 3 unreachable_site_world initial_state)
       = fst (nth_invocation (3 - 1) unreachable_site_world initial_state)
    \<and> invocations (trace (snd (navigate_with_retries 3 unreachable_site_world
          initial_state))) = invocations (trace initial_state) + 3"
    by blast
  moreover have "(3::nat) - 1 = Suc (Suc 0)" by simp
  ultimately have r2: "fst (navigate_to_login unreachable_site_world initial_state)
       = Inl (PlaywrightError ''Name not resolved'')
    \<and> invocations (trace (snd (navigate_to_login unreachable_site_world initial_state))) = 3"
    unfolding navigate_to_login_def i0 using u(4) by (simp add: numeral_2_eq_2)
  from f u r1 r2 show ?thesis by simp
qed

section \<open>More about traces\<close>

lemma tracesI:
  assumes "\<And>w s. \<exists>evs. trace (snd (m w s)) = trace s @ evs \<and> list_all P evs"
  shows "traces P m"
  using assms unfolding traces_def by blast

lemma tracesD:
  assumes "traces P m"
  obtains evs where "trace (snd (m w s)) = trace s @ evs" "list_all P evs"
  using assms unfolding traces_def by blast

lemma emits_traces: "emits P m \<Longrightarrow> traces P m"
  unfolding emits_def traces_def by blast

lemma emits_mono:
  assumes "emits P m" and "\<And>e. P e \<Longrightarrow> Q e"
  shows "emits Q m"
proof (rule emitsI)
  fix w s
  from assms(1) obtain evs where "trace (snd (m w s)) = trace s @ evs" "list_all P evs"
    "cleanup_projects (snd (m w s)) = cleanup_projects s"
    "created_project_id (snd (m w s)) = created_project_id s"
    by (rule emitsD)
  moreover from \<open>list_all P evs\<close> assms(2) have "list_all Q evs"
    by (simp add: list_all_iff)
  ultimately show "\<exists>evs. trace (snd (m w s)) = trace s @ evs \<and> list_all Q evs
        \<and> cleanup_projects (snd (m w s)) = cleanup_projects s
        \<and> created_project_id (snd (m w s)) = created_project_id s"
    by blast
qed

lemma traces_ret: "traces P (ret x)"
  by (simp add: traces_def ret_def)

lemma traces_raise: "traces P (raise e)"
  by (simp add: traces_def raise_def)

lemma traces_assert: "traces P (assert c msg)"
  by (simp add: assert_def traces_ret traces_raise)

lemma traces_bnd:
  assumes "traces P m" and "\<And>x. traces P (f x)"
  shows "traces P (bnd m f)"
proof (rule tracesI)
  fix w s
  obtain r s1 where m: "m w s = (r, s1)" by (cases "m w s")
  from assms(1) obtain evs1 where 1: "trace s1 = trace s @ evs1" "list_all P evs1"
    using tracesD [of P m w s] m by (metis snd_conv)
  show "\<exists>evs. trace (snd (bnd m f w s)) = trace s @ evs \<and> list_all P evs"
  proof (cases r)
    case (Inl e)
    then show ?thesis using m 1 by (simp add: bnd_def)
  next
    case (Inr x)
    from assms(2) [of x] obtain evs2 where 2: "trace (snd (f x w s1)) = trace s1 @ evs2"
      "list_all P evs2"
      using tracesD [of P "f x" w s1] by blast
    have "trace (snd (bnd m f w s)) = trace s @ (evs1 @ evs2)"
      using m Inr 1 2 by (simp add: bnd_def)
    moreover have "list_all P (evs1 @ evs2)" using 1 2 by simp
    ultimately show ?thesis by blast
  qed
qed

lemma traces_attempt:
  assumes "traces P m"
  shows "traces P (attempt m)"
  using assms unfolding traces_def attempt_def by (simp add: split_def)

lemma traces_try_finally:
  assumes "traces P m" and "traces P fin"
  shows "traces P (try_finally m fin)"
proof -
  have eq: "\<And>w s. snd (try_finally m fin w s) = snd (bnd (attempt m) (\<lambda>_. fin) w s)"
    by (simp add: try_finally_def bnd_def attempt_def split: prod.splits sum.splits)
  have "traces P (bnd (attempt m) (\<lambda>_. fin))"
    using assms by (intro traces_bnd traces_attempt)
  then show ?thesis unfolding traces_def eq .
qed

lemma traces_http: "P (Http r) \<Longrightarrow> traces P (http r)"
  by (simp add: traces_def http_def emit_def)

lemma traces_response_json: "traces P (response_json r)"
  by (cases "json_body r") (simp_all add: response_json_def traces_ret traces_raise)

lemma traces_set_created_project_id: "traces P (set_created_project_id v)"
  by (simp add: traces_def set_created_project_id_def)

lemma traces_get_created_project_id: "traces P get_created_project_id"
  by (simp add: traces_def get_created_project_id_def)

lemma traces_get_cleanup_projects: "traces P get_cleanup_projects"
  by (simp add: traces_def get_cleanup_projects_def)

lemma traces_cleanup_projects_append:
  "P (Append (fst item) (snd item)) \<Longrightarrow> traces P (cleanup_projects_append item)"
  by (simp add: traces_def cleanup_projects_append_def emit_def)

lemma traces_authenticate:
  "P (Http (LoginRequest email password)) \<Longrightarrow> traces P (authenticate email password)"
  unfolding authenticate_def Let_def
  by (intro traces_bnd traces_http) (simp_all add: traces_ret traces_raise traces_bnd traces_response_json)

lemma traces_create_project:
  "P (Http (CreateProjectRequest project tenant_id)) \<Longrightarrow> traces P (create_project project tenant_id)"
  unfolding create_project_def
  by (intro traces_bnd traces_http) (simp_all add: traces_raise traces_response_json)

lemma traces_delete_project:
  "P (Http (DeleteProjectRequest project_id tenant_id)) \<Longrightarrow> traces P (delete_project project_id tenant_id)"
  unfolding delete_project_def
  by (intro traces_bnd traces_attempt traces_http) (simp_all add: traces_ret split: sum.splits)

lemma emits_response_json: "emits P (response_json r)"
  by (cases "json_body r") (simp_all add: response_json_def emits_ret emits_raise)

lemma emits_get_project:
  "P (Http (GetProjectRequest project_id tenant_id)) \<Longrightarrow> emits P (get_project project_id tenant_id)"
  unfolding get_project_def
  by (intro emits_bnd emits_http) (simp_all add: emits_raise emits_response_json)

lemma emits_verify_tenant_isolation:
  "(\<And>t. P (Http (GetProjectRequest project_id t))) \<Longrightarrow>
   emits P (verify_tenant_isolation project_id a b)"
  unfolding verify_tenant_isolation_def
  by (intro emits_bnd emits_attempt emits_get_project emits_case_sum emits_ret) simp_all

section \<open>Traces of the steps of the integration test\<close>

lemma browser_event_quiet: "browser_event e \<Longrightarrow> quiet e"
  by (cases e) simp_all

lemma quiet_get: "quiet (Http (GetProjectRequest i t))"
  by simp

lemma registrations_append:
  "registrations (xs @ ys) = registrations xs @ registrations ys"
  by (induction xs rule: registrations.induct) simp_all

lemma deletions_append: "deletions (xs @ ys) = deletions xs @ deletions ys"
  by (induction xs rule: deletions.induct) simp_all

lemma quiet_registrations: "list_all quiet evs \<Longrightarrow> registrations evs = []"
  by (induction evs rule: registrations.induct) simp_all

lemma quiet_deletions: "list_all quiet evs \<Longrightarrow> deletions evs = []"
  by (induction evs rule: deletions.induct) simp_all

lemma emits_platform_test:
  assumes "P (TestingOn platform)" and "\<And>e. browser_event e \<Longrightarrow> P e"
  shows "emits P (platform_test platform project_name email password)"
  unfolding platform_test_def
  by (intro emits_bnd emits_testing_on emits_if assms(1)
      emits_mono [OF emits_test_mobile_accessibility assms(2)]
      emits_mono [OF emits_test_desktop_platform assms(2)])

lemma emits_cross_platform_loop:
  assumes "\<And>p. P (TestingOn p)" and "\<And>e. browser_event e \<Longrightarrow> P e"
  shows "emits P (cross_platform_loop ps project_name email password results)"
proof (induction ps arbitrary: results)
  case Nil
  show ?case by (simp add: emits_ret)
next
  case (Cons p ps)
  show ?case
    unfolding cross_platform_loop.simps
    by (intro emits_bnd emits_attempt emits_platform_test emits_case_sum Cons.IH assms)
qed

lemma emits_test_cross_platform:
  assumes "\<And>p. P (TestingOn p)" and "\<And>e. browser_event e \<Longrightarrow> P e"
  shows "emits P (test_cross_platform project_name email password)"
  unfolding test_cross_platform_def by (rule emits_cross_platform_loop) (rule assms)+

lemma emits_true_div: "emits P (true_div m n)"
  by (simp add: true_div_def emits_ret emits_raise)

lemma emits_step2: "emits quiet (step2_web_ui_verification test_project)"
  unfolding step2_web_ui_verification_def with_playwright_def
  by (intro emits_bnd emits_try_finally emits_ui emits_sleep emits_ret emits_assert
      emits_mono [OF emits_login browser_event_quiet]
      emits_mono [OF emits_verify_project_in_dashboard browser_event_quiet]
      emits_mono [OF emits_verify_project_details browser_event_quiet]) simp_all

lemma emits_step3: "emits quiet (step3_mobile_accessibility test_project)"
  unfolding step3_mobile_accessibility_def
  by (intro emits_bnd emits_assert
      emits_mono [OF emits_test_mobile_accessibility browser_event_quiet])

lemma emits_step4: "emits quiet (step4_tenant_isolation project_id)"
  unfolding step4_tenant_isolation_def
  by (intro emits_bnd emits_assert emits_verify_tenant_isolation quiet_get)

lemma emits_step5: "emits quiet (step5_cross_platform test_project)"
  unfolding step5_cross_platform_def cross_platform_success_rate_def
proof (intro emits_bnd emits_assert emits_true_div)
  show "emits quiet (test_cross_platform (name test_project) ADMIN_EMAIL PASSWORD)"
    by (rule emits_test_cross_platform) (simp_all add: browser_event_quiet)
qed

lemma emits_get_created_project_id: "emits P get_created_project_id"
  by (simp add: emits_def get_created_project_id_def)

lemma emits_verify_before_cleanup: "emits quiet verify_before_cleanup"
  unfolding verify_before_cleanup_def
  by (intro emits_bnd emits_get_created_project_id emits_if emits_attempt emits_ret
      emits_get_project quiet_get)

lemma emits_later_steps:
  "emits quiet
     (bnd (step2_web_ui_verification test_project) (\<lambda>_.
      bnd (step3_mobile_accessibility test_project) (\<lambda>_.
      bnd (step4_tenant_isolation project_id) (\<lambda>_.
      step5_cross_platform test_project))))"
  by (intro emits_bnd emits_step2 emits_step3 emits_step4 emits_step5)

section \<open>Results about the integration test and its cleanup\<close>

lemma authenticate_effect:
  "trace (snd (authenticate email password w s)) = trace s @ [Http (LoginRequest email password)]
   \<and> cleanup_projects (snd (authenticate email password w s)) = cleanup_projects s
   \<and> created_project_id (snd (authenticate email password w s)) = created_project_id s"
  by (cases "http_reply w (clock s) (LoginRequest email password)")
     (simp_all add: authenticate_def response_json_def prog_defs Let_def split: option.splits)

lemma authenticate_truthy:
  "fst (authenticate email password w s) = Inr token \<Longrightarrow> truthy token"
  by (cases "http_reply w (clock s) (LoginRequest email password)")
     (auto simp add: authenticate_def response_json_def prog_defs Let_def
       split: option.splits if_splits)

lemma create_project_effect:
  "trace (snd (create_project project tenant_id w s))
     = trace s @ [Http (CreateProjectRequest project tenant_id)]
   \<and> cleanup_projects (snd (create_project project tenant_id w s)) = cleanup_projects s
   \<and> created_project_id (snd (create_project project tenant_id w s)) = created_project_id s"
  by (cases "http_reply w (clock s) (CreateProjectRequest project tenant_id)")
     (simp_all add: create_project_def response_json_def prog_defs split: option.splits)

lemma step1_effect:
  assumes "fst (authenticate ADMIN_EMAIL PASSWORD w s) = Inr token"
    and "fst (create_project test_project COMPANY1_ID w
               (snd (authenticate ADMIN_EMAIL PASSWORD w s))) = Inr project_response"
  shows "trace (snd (step1_api_project_creation test_project w s))
       = trace s @ [Http (LoginRequest ADMIN_EMAIL PASSWORD),
                    Http (CreateProjectRequest test_project COMPANY1_ID),
                    Append (dict_get project_response ''id'') COMPANY1_ID]"
    and "cleanup_projects (snd (step1_api_project_creation test_project w s))
       = cleanup_projects s @ [(dict_get project_response ''id'', COMPANY1_ID)]"
    and "fst (step1_api_project_creation test_project w s)
          \<in> range Inl \<union> {Inr (dict_get project_response ''id'')}"
proof -
  obtain s1 where a: "authenticate ADMIN_EMAIL PASSWORD w s = (Inr token, s1)"
    using assms(1) by (cases "authenticate ADMIN_EMAIL PASSWORD w s") simp
  obtain s2 where c: "create_project test_project COMPANY1_ID w s1 = (Inr project_response, s2)"
    using assms(2) a by (cases "create_project test_project COMPANY1_ID w s1") simp
  have t: "truthy token" using assms(1) by (rule authenticate_truthy)
  have e1: "trace s1 = trace s @ [Http (LoginRequest ADMIN_EMAIL PASSWORD)]"
    "cleanup_projects s1 = cleanup_projects s"
    using authenticate_effect [of ADMIN_EMAIL PASSWORD w s] a by simp_all
  have e2: "trace s2 = trace s1 @ [Http (CreateProjectRequest test_project COMPANY1_ID)]"
    "cleanup_projects s2 = cleanup_projects s1"
    using create_project_effect [of test_project COMPANY1_ID w s1] c by simp_all
  show "trace (snd (step1_api_project_creation test_project w s))
       = trace s @ [Http (LoginRequest ADMIN_EMAIL PASSWORD),
                    Http (CreateProjectRequest test_project COMPANY1_ID),
                    Append (dict_get project_response ''id'') COMPANY1_ID]"
    using a c t e1 e2
    by (simp add: step1_api_project_creation_def bnd_def assert_def ret_def raise_def
        set_created_project_id_def cleanup_projects_append_def emit_def)
  show "cleanup_projects (snd (step1_api_project_creation test_project w s))
       = cleanup_projects s @ [(dict_get project_response ''id'', COMPANY1_ID)]"
    using a c t e1 e2
    by (simp add: step1_api_project_creation_def bnd_def assert_def ret_def raise_def
        set_created_project_id_def cleanup_projects_append_def emit_def)
  show "fst (step1_api_project_creation test_project w s)
          \<in> range Inl \<union> {Inr (dict_get project_response ''id'')}"
    using a c t
    by (simp add: step1_api_project_creation_def bnd_def assert_def ret_def raise_def
        set_created_project_id_def cleanup_projects_append_def emit_def)
qed

lemma bnd_after:
  assumes "\<And>x. emits P (f x)"
  shows "\<exists>evs. trace (snd (bnd m f w s)) = trace (snd (m w s)) @ evs \<and> list_all P evs
     \<and> cleanup_projects (snd (bnd m f w s)) = cleanup_projects (snd (m w s))"
proof -
  obtain r s1 where m: "m w s = (r, s1)" by (cases "m w s")
  show ?thesis
  proof (cases r)
    case (Inl e)
    then show ?thesis using m by (simp add: bnd_def)
  next
    case (Inr x)
    from assms [of x] obtain evs where "trace (snd (f x w s1)) = trace s1 @ evs"
      "list_all P evs" "cleanup_projects (snd (f x w s1)) = cleanup_projects s1"
      using emitsD [of P "f x" w s1] by blast
    then show ?thesis using m Inr by (simp add: bnd_def)
  qed
qed

lemma try_finally_after:
  assumes "emits P fin"
  shows "\<exists>evs. trace (snd (try_finally m fin w s)) = trace (snd (m w s)) @ evs \<and> list_all P evs
     \<and> cleanup_projects (snd (try_finally m fin w s)) = cleanup_projects (snd (m w s))"
proof -
  obtain r s1 where m: "m w s = (r, s1)" by (cases "m w s")
  from assms obtain evs where "trace (snd (fin w s1)) = trace s1 @ evs"
      "list_all P evs" "cleanup_projects (snd (fin w s1)) = cleanup_projects s1"
    using emitsD [of P fin w s1] by blast
  moreover have "snd (try_finally m fin w s) = snd (fin w s1)"
    using m by (simp add: try_finally_def split: prod.splits sum.splits)
  ultimately show ?thesis using m by simp
qed

lemma flow_effect:
  assumes "fst (authenticate ADMIN_EMAIL PASSWORD w s) = Inr token"
    and "fst (create_project test_project COMPANY1_ID w
               (snd (authenticate ADMIN_EMAIL PASSWORD w s))) = Inr project_response"
  shows "\<exists>evs. trace (snd (test_project_creation_flow test_project w s))
       = trace s @ [Http (LoginRequest ADMIN_EMAIL PASSWORD),
                    Http (CreateProjectRequest test_project COMPANY1_ID),
                    Append (dict_get project_response ''id'') COMPANY1_ID] @ evs
       \<and> list_all quiet evs
       \<and> cleanup_projects (snd (test_project_creation_flow test_project w s))
           = cleanup_projects s @ [(dict_get project_response ''id'', COMPANY1_ID)]"
proof -
  let ?rest = "\<lambda>project_id.
        bnd (step2_web_ui_verification test_project) (\<lambda>_.
        bnd (step3_mobile_accessibility test_project) (\<lambda>_.
        bnd (step4_tenant_isolation project_id) (\<lambda>_.
        step5_cross_platform test_project)))"
  let ?body = "bnd (step1_api_project_creation test_project) ?rest"
  have r: "\<And>project_id. emits quiet (?rest project_id)" by (rule emits_later_steps)
  obtain evs1 where 1: "trace (snd (?body w s))
      = trace (snd (step1_api_project_creation test_project w s)) @ evs1"
    "list_all quiet evs1"
    "cleanup_projects (snd (?body w s))
      = cleanup_projects (snd (step1_api_project_creation test_project w s))"
    using bnd_after [of quiet ?rest "step1_api_project_creation test_project" w s, OF r]
    by blast
  obtain evs2 where 2: "trace (snd (try_finally ?body verify_before_cleanup w s))
      = trace (snd (?body w s)) @ evs2"
    "list_all quiet evs2"
    "cleanup_projects (snd (try_finally ?body verify_before_cleanup w s))
      = cleanup_projects (snd (?body w s))"
    using try_finally_after [OF emits_verify_before_cleanup, of ?body w s] by blast
  have "trace (snd (test_project_creation_flow test_project w s))
       = trace s @ [Http (LoginRequest ADMIN_EMAIL PASSWORD),
                    Http (CreateProjectRequest test_project COMPANY1_ID),
                    Append (dict_get project_response ''id'') COMPANY1_ID] @ (evs1 @ evs2)"
    using 1 2 step1_effect(1) [OF assms]
    by (simp add: test_project_creation_flow_def)
  moreover have "list_all quiet (evs1 @ evs2)" using 1 2 by simp
  moreover have "cleanup_projects (snd (test_project_creation_flow test_project w s))
           = cleanup_projects s @ [(dict_get project_response ''id'', COMPANY1_ID)]"
    using 1 2 step1_effect(2) [OF assms]
    by (simp add: test_project_creation_flow_def)
  ultimately show ?thesis by blast
qed

lemma delete_project_effect:
  "(\<exists>b. fst (delete_project project_id tenant_id w s) = Inr b)
   \<and> trace (snd (delete_project project_id tenant_id w s)) =
       trace s @ [Http (DeleteProjectRequest project_id tenant_id)]"
  by (cases "http_reply w (clock s) (DeleteProjectRequest project_id tenant_id)")
     (auto simp add: delete_project_def bnd_def attempt_def http_def ret_def emit_def)

lemma delete_projects_effect:
  "fst (delete_projects xs w s) = Inr ()
   \<and> trace (snd (delete_projects xs w s))
       = trace s @ map (\<lambda>item. Http (DeleteProjectRequest (fst item) (snd item))) xs"
proof (induction xs arbitrary: s)
  case Nil
  show ?case by (simp add: ret_def)
next
  case (Cons x xs)
  obtain b s1 where d: "delete_project (fst x) (snd x) w s = (Inr b, s1)"
    using delete_project_effect [of "fst x" "snd x" w s]
    by (cases "delete_project (fst x) (snd x) w s") auto
  have "trace s1 = trace s @ [Http (DeleteProjectRequest (fst x) (snd x))]"
    using delete_project_effect [of "fst x" "snd x" w s] d by simp
  with Cons.IH [of s1] d show ?case by (simp add: bnd_def)
qed

lemma deletions_map:
  "deletions (map (\<lambda>item. Http (DeleteProjectRequest (fst item) (snd item))) xs) = xs"
  by (induction xs) simp_all

lemma teardown_effect:
  "deletions (trace (snd (cleanup_projects_teardown w s)))
     = deletions (trace s)
       @ (if isl (fst (authenticate ''admin@company1.com'' ''password123'' w s)) then []
          else cleanup_projects s)
   \<and> registrations (trace (snd (cleanup_projects_teardown w s))) = registrations (trace s)"
proof -
  let ?a = "authenticate ''admin@company1.com'' ''password123''"
  obtain r s1 where a: "?a w s = (r, s1)" by (cases "?a w s")
  have e: "trace s1 = trace s @ [Http (LoginRequest ''admin@company1.com'' ''password123'')]"
    "cleanup_projects s1 = cleanup_projects s"
    using authenticate_effect [of "''admin@company1.com''" "''password123''" w s] a by simp_all
  show ?thesis
  proof (cases r)
    case (Inl err)
    then show ?thesis using a e
      by (simp add: cleanup_projects_teardown_def bnd_def attempt_def ret_def
          deletions_append registrations_append)
  next
    case (Inr token)
    have "snd (cleanup_projects_teardown w s) = snd (delete_projects (cleanup_projects s1) w s1)"
      using a Inr
      by (simp add: cleanup_projects_teardown_def bnd_def attempt_def ret_def
          get_cleanup_projects_def split: prod.splits sum.splits)
    moreover have "registrations (map (\<lambda>item. Http (DeleteProjectRequest (fst item) (snd item))) xs) = []" for xs
      by (induction xs) simp_all
    ultimately show ?thesis using a Inr e delete_projects_effect [of "cleanup_projects s1" w s1]
      by (simp add: deletions_append registrations_append deletions_map)
  qed
qed

lemma traces_delete_projects: "traces (\<lambda>e. True) (delete_projects xs)"
  by (induction xs) (auto intro!: traces_bnd traces_delete_project simp add: traces_ret)

lemma traces_teardown: "traces (\<lambda>e. True) cleanup_projects_teardown"
  unfolding cleanup_projects_teardown_def
  by (intro traces_bnd traces_attempt traces_authenticate traces_get_cleanup_projects
      traces_delete_projects traces_ret) simp

lemma run_effect:
  assumes "fst (authenticate ADMIN_EMAIL PASSWORD w initial_state) = Inr token"
    and "fst (create_project test_project COMPANY1_ID w
               (snd (authenticate ADMIN_EMAIL PASSWORD w initial_state))) = Inr project_response"
  shows "(\<exists>later. trace (snd (run_test_project_creation_flow test_project w))
            = [Http (LoginRequest ADMIN_EMAIL PASSWORD),
               Http (CreateProjectRequest test_project COMPANY1_ID),
               Append (dict_get project_response ''id'') COMPANY1_ID] @ later
          \<and> registrations later = [])
     \<and> cleanup_projects (snd (test_project_creation_flow test_project w initial_state))
         = [(dict_get project_response ''id'', COMPANY1_ID)]
     \<and> deletions (trace (snd (run_test_project_creation_flow test_project w)))
         = (if isl (fst (authenticate ''admin@company1.com'' ''password123'' w
                  (snd (test_project_creation_flow test_project w initial_state))))
            then [] else [(dict_get project_response ''id'', COMPANY1_ID)])"
proof -
  let ?after = "snd (test_project_creation_flow test_project w initial_state)"
  let ?pid = "dict_get project_response ''id''"
  let ?pre = "[Http (LoginRequest ADMIN_EMAIL PASSWORD),
               Http (CreateProjectRequest test_project COMPANY1_ID),
               Append ?pid COMPANY1_ID]"
  from flow_effect [OF assms] obtain evs where
    f: "trace ?after = ?pre @ evs" "list_all quiet evs"
       "cleanup_projects ?after = [(?pid, COMPANY1_ID)]"
    by (auto simp add: initial_state_def)
  have final: "snd (run_test_project_creation_flow test_project w)
      = snd (cleanup_projects_teardown w ?after)"
    by (simp add: run_test_project_creation_flow_def split: prod.splits)
  have t: "trace ?after = trace ?after @ []" by simp
  obtain evs' where tr: "trace (snd (cleanup_projects_teardown w ?after)) = trace ?after @ evs'"
    using tracesD [of "\<lambda>e. True" cleanup_projects_teardown w ?after] traces_teardown by blast
  have reg_after: "registrations (trace ?after) = [(?pid, COMPANY1_ID)]"
    using f by (simp add: registrations_append quiet_registrations flow_consts)
  have del_after: "deletions (trace ?after) = []"
    using f by (simp add: deletions_append quiet_deletions flow_consts)
  have reg_final: "registrations (trace (snd (cleanup_projects_teardown w ?after)))
      = [(?pid, COMPANY1_ID)]"
    using teardown_effect [of w ?after] reg_after by simp
  have "registrations (?pre @ evs @ evs') = [(?pid, COMPANY1_ID)]"
    using reg_final tr f by simp
  then have "registrations (evs @ evs') = []"
    by (simp add: registrations_append flow_consts)
  moreover have "trace (snd (run_test_project_creation_flow test_project w)) = ?pre @ (evs @ evs')"
    using final tr f by simp
  ultimately have a: "\<exists>later. trace (snd (run_test_project_creation_flow test_project w))
            = ?pre @ later \<and> registrations later = []"
    by blast
  have c: "deletions (trace (snd (run_test_project_creation_flow test_project w)))
         = (if isl (fst (authenticate ''admin@company1.com'' ''password123'' w ?after))
            then [] else [(?pid, COMPANY1_ID)])"
    using teardown_effect [of w ?after] del_after f(3) final by simp
  from a f(3) c show ?thesis by blast
qed

text \<open>
  C2, as stated, fails: on \<open>expired_login_world\<close> the project is created and its pair
  registered, the test fails, and the fixture's own login is refused, so that by the end
  of the run no deletion has been attempted.
\<close>

theorem cleanup_never_attempted_counterexample:
  "fst (authenticate ADMIN_EMAIL PASSWORD expired_login_world initial_state)
     = Inr (JStr ''token'')
   \<and> fst (create_project sample_project COMPANY1_ID expired_login_world
          (snd (authenticate ADMIN_EMAIL PASSWORD expired_login_world initial_state)))
     = Inr [(''id'', JInt 42)]
   \<and> registrations (trace (snd (run_test_project_creation_flow sample_project
          expired_login_world))) = [(JInt 42, COMPANY1_ID)]
   \<and> deletions (trace (snd (run_test_project_creation_flow sample_project
          expired_login_world))) = []"
  by (simp add: run_test_project_creation_flow_def test_project_creation_flow_def
      step1_api_project_creation_def verify_before_cleanup_def cleanup_projects_teardown_def
      authenticate_def create_project_def get_project_def response_json_def dict_get_def
      set_created_project_id_def get_created_project_id_def cleanup_projects_append_def
      get_cleanup_projects_def prog_defs flow_consts expired_login_world_def
      sample_project_def initial_state_def Let_def)

text \<open>
  C2, amended. In every run in which the login and the creation of step 1 succeed, the
  pair of the created project's id and tenant \<open>company1\<close> is registered directly after
  the creation request, before any other event of the run, and never again; the
  fixture's list holds exactly that pair when the test ends, whatever the later steps
  did; and by the end of the run the deletion of that pair has been requested exactly
  once if the fixture's own login succeeded, and not at all if it failed.
\<close>

theorem cleanup_registered_once_deleted_once:
  assumes "fst (authenticate ADMIN_EMAIL PASSWORD w initial_state) = Inr token"
    and "fst (create_project test_project COMPANY1_ID w
               (snd (authenticate ADMIN_EMAIL PASSWORD w initial_state))) = Inr project_response"
  shows "(\<exists>later. trace (snd (run_test_project_creation_flow test_project w))
            = [Http (LoginRequest ADMIN_EMAIL PASSWORD),
               Http (CreateProjectRequest test_project COMPANY1_ID),
               Append (dict_get project_response ''id'') COMPANY1_ID] @ later
          \<and> registrations later = [])
     \<and> cleanup_projects (snd (test_project_creation_flow test_project w initial_state))
         = [(dict_get project_response ''id'', COMPANY1_ID)]
     \<and> deletions (trace (snd (run_test_project_creation_flow test_project w)))
         = (if isl (fst (authenticate ''admin@company1.com'' ''password123'' w
                  (snd (test_project_creation_flow test_project w initial_state))))
            then [] else [(dict_get project_response ''id'', COMPANY1_ID)])"
  using assms by (rule run_effect)

theorem cleanup_registered_once_deleted_once_witness:
  "fst (authenticate ADMIN_EMAIL PASSWORD creation_only_world initial_state)
     = Inr (JStr ''token'')
   \<and> fst (create_project sample_project COMPANY1_ID creation_only_world
          (snd (authenticate ADMIN_EMAIL PASSWORD creation_only_world initial_state)))
     = Inr [(''id'', JInt 42)]
   \<and> registrations (trace (snd (run_test_project_creation_flow sample_project
          creation_only_world))) = [(JInt 42, COMPANY1_ID)]
   \<and> cleanup_projects (snd (test_project_creation_flow sample_project creation_only_world
          initial_state)) = [(JInt 42, COMPANY1_ID)]
   \<and> deletions (trace (snd (run_test_project_creation_flow sample_project
          creation_only_world))) = [(JInt 42, COMPANY1_ID)]"
proof -
  have h1: "fst (authenticate ADMIN_EMAIL PASSWORD creation_only_world initial_state)
     = Inr (JStr ''token'')"
    by (simp add: authenticate_def response_json_def dict_get_def prog_defs Let_def
        creation_only_world_def initial_state_def)
  have h2: "fst (create_project sample_project COMPANY1_ID creation_only_world
          (snd (authenticate ADMIN_EMAIL PASSWORD creation_only_world initial_state)))
     = Inr [(''id'', JInt 42)]"
    by (simp add: create_project_def response_json_def prog_defs creation_only_world_def)
  have login: "\<not> isl (fst (authenticate ''admin@company1.com'' ''password123''
      creation_only_world s))" for s
    by (simp add: authenticate_def response_json_def dict_get_def prog_defs Let_def
        creation_only_world_def)
  have pid: "dict_get [(''id'', JInt 42)] ''id'' = JInt 42"
    by (simp add: dict_get_def)
  from cleanup_registered_once_deleted_once [OF h1 h2] login pid
  obtain later where
    t: "trace (snd (run_test_project_creation_flow sample_project creation_only_world))
          = [Http (LoginRequest ADMIN_EMAIL PASSWORD),
             Http (CreateProjectRequest sample_project COMPANY1_ID),
             Append (JInt 42) COMPANY1_ID] @ later"
      "registrations later = []"
    and c: "cleanup_projects (snd (test_project_creation_flow sample_project
          creation_only_world initial_state)) = [(JInt 42, COMPANY1_ID)]"
    and d: "deletions (trace (snd (run_test_project_creation_flow sample_project
          creation_only_world))) = [(JInt 42, COMPANY1_ID)]"
    by auto
  have "registrations (trace (snd (run_test_project_creation_flow sample_project
          creation_only_world))) = [(JInt 42, COMPANY1_ID)]"
    unfolding t(1) using t(2) by (simp add: registrations_append)
  with h1 h2 c d show ?thesis by simp
qed

section \<open>Sleeps and dashboard checks\<close>

lemma traces_mono:
  assumes "traces P m" and "\<And>e. P e \<Longrightarrow> Q e"
  shows "traces Q m"
proof (rule tracesI)
  fix w s
  from assms(1) obtain evs where "trace (snd (m w s)) = trace s @ evs" "list_all P evs"
    by (rule tracesD)
  moreover from \<open>list_all P evs\<close> assms(2) have "list_all Q evs"
    by (simp add: list_all_iff)
  ultimately show "\<exists>evs. trace (snd (m w s)) = trace s @ evs \<and> list_all Q evs"
    by blast
qed

lemma plain_nosleep: "plain e \<Longrightarrow> nosleep e"
  by (cases e) simp_all

lemma browser_event_nosleep: "browser_event e \<Longrightarrow> nosleep e"
  by (cases e) simp_all

lemma plain_one_sleep: "list_all plain evs \<Longrightarrow> one_sleep_before_first_check evs"
  by (induction evs rule: one_sleep_before_first_check.induct) simp_all

lemma plain_prefix_one_sleep:
  "list_all plain pre \<Longrightarrow> one_sleep_before_first_check (pre @ es) = one_sleep_before_first_check es"
  by (induction pre rule: one_sleep_before_first_check.induct) simp_all

lemma sleep_checked_one_sleep: "sleep_checked evs \<Longrightarrow> one_sleep_before_first_check evs"
  unfolding sleep_checked_def by (auto simp add: plain_prefix_one_sleep)

lemma sleep_checked_append:
  "sleep_checked evs \<Longrightarrow> list_all nosleep later \<Longrightarrow> sleep_checked (evs @ later)"
  unfolding sleep_checked_def
  by (metis append_Cons append_assoc list_all_append)

lemma sleep_checked_prepend:
  "list_all plain pre \<Longrightarrow> sleep_checked evs \<Longrightarrow> sleep_checked (pre @ evs)"
  unfolding sleep_checked_def
  by (metis append_assoc list_all_append)

lemma guardedD:
  assumes "guarded m"
  obtains evs where "trace (snd (m w s)) = trace s @ evs"
    "sleep_checked evs \<or> (list_all plain evs \<and> isl (fst (m w s)))"
  using assms unfolding guarded_def by blast

lemma guarded_bnd_pre:
  assumes "traces plain m" and "\<And>x. guarded (f x)"
  shows "guarded (bnd m f)"
  unfolding guarded_def
proof (intro allI)
  fix w s
  obtain r s1 where m: "m w s = (r, s1)" by (cases "m w s")
  from assms(1) obtain evs1 where 1: "trace s1 = trace s @ evs1" "list_all plain evs1"
    using tracesD [of plain m w s] m by (metis snd_conv)
  show "\<exists>evs. trace (snd (bnd m f w s)) = trace s @ evs
        \<and> (sleep_checked evs \<or> (list_all plain evs \<and> isl (fst (bnd m f w s))))"
  proof (cases r)
    case (Inl e)
    then show ?thesis using m 1 by (auto simp add: bnd_def)
  next
    case (Inr x)
    from assms(2) [of x] obtain evs2 where 2: "trace (snd (f x w s1)) = trace s1 @ evs2"
      "sleep_checked evs2 \<or> (list_all plain evs2 \<and> isl (fst (f x w s1)))"
      by (rule guardedD)
    have t: "trace (snd (bnd m f w s)) = trace s @ (evs1 @ evs2)"
      using m Inr 1 2 by (simp add: bnd_def)
    have "sleep_checked (evs1 @ evs2) \<or> (list_all plain (evs1 @ evs2) \<and> isl (fst (bnd m f w s)))"
      using 2(2) 1(2) m Inr by (auto simp add: bnd_def sleep_checked_prepend)
    with t show ?thesis by blast
  qed
qed

lemma guarded_bnd_post:
  assumes "guarded m" and "\<And>x. traces nosleep (f x)"
  shows "guarded (bnd m f)"
  unfolding guarded_def
proof (intro allI)
  fix w s
  obtain r s1 where m: "m w s = (r, s1)" by (cases "m w s")
  from assms(1) obtain evs1 where 1: "trace s1 = trace s @ evs1"
    "sleep_checked evs1 \<or> (list_all plain evs1 \<and> isl r)"
    using guardedD [of m w s] m by (metis fst_conv snd_conv)
  show "\<exists>evs. trace (snd (bnd m f w s)) = trace s @ evs
        \<and> (sleep_checked evs \<or> (list_all plain evs \<and> isl (fst (bnd m f w s))))"
  proof (cases r)
    case (Inl e)
    then show ?thesis using m 1 by (auto simp add: bnd_def)
  next
    case (Inr x)
    with 1(2) have sc: "sleep_checked evs1" by simp
    from assms(2) [of x] obtain evs2 where 2: "trace (snd (f x w s1)) = trace s1 @ evs2"
      "list_all nosleep evs2"
      by (rule tracesD)
    have t: "trace (snd (bnd m f w s)) = trace s @ (evs1 @ evs2)"
      using m Inr 1 2 by (simp add: bnd_def)
    with sc 2(2) show ?thesis using sleep_checked_append by blast
  qed
qed

lemma guarded_try_finally:
  assumes "guarded m" and "traces plain fin"
  shows "guarded (try_finally m fin)"
  unfolding guarded_def
proof (intro allI)
  fix w s
  obtain r s1 where m: "m w s = (r, s1)" by (cases "m w s")
  from assms(1) obtain evs1 where 1: "trace s1 = trace s @ evs1"
    "sleep_checked evs1 \<or> (list_all plain evs1 \<and> isl r)"
    using guardedD [of m w s] m by (metis fst_conv snd_conv)
  obtain r2 s2 where f: "fin w s1 = (r2, s2)" by (cases "fin w s1")
  from assms(2) obtain evs2 where 2: "trace s2 = trace s1 @ evs2" "list_all plain evs2"
    using tracesD [of plain fin w s1] f by (metis snd_conv)
  have t: "trace (snd (try_finally m fin w s)) = trace s @ (evs1 @ evs2)"
    using m f 1 2 by (simp add: try_finally_def split: sum.splits)
  have res: "isl r \<Longrightarrow> isl (fst (try_finally m fin w s))"
    using m f by (cases r; cases r2) (simp_all add: try_finally_def)
  have "list_all nosleep evs2" using 2(2) plain_nosleep by (simp add: list_all_iff)
  then have "sleep_checked (evs1 @ evs2)
      \<or> (list_all plain (evs1 @ evs2) \<and> isl (fst (try_finally m fin w s)))"
    using 1(2) 2(2) res by (auto simp add: sleep_checked_append)
  with t show "\<exists>evs. trace (snd (try_finally m fin w s)) = trace s @ evs
        \<and> (sleep_checked evs \<or> (list_all plain evs \<and> isl (fst (try_finally m fin w s))))"
    by blast
qed

lemma verify_project_in_dashboard_trace:
  "\<exists>evs. trace (snd (verify_project_in_dashboard project_name timeout w s))
           = trace s @ ReadUrl # evs
       \<and> list_all browser_event evs"
proof -
  let ?rest = "\<lambda>url. bnd (if \<not> contains ''projects'' url
          then bnd (ui (Click ProjectsLink)) (\<lambda>_. ui (WaitForLoadState ''networkidle''))
          else ret ()) (\<lambda>_.
     bnd (ui (WaitForSelector ProjectList timeout)) (\<lambda>_.
     bnd (attempt (ui (ExpectVisible (ProjectCard project_name) timeout))) (\<lambda>r.
       case r of
         Inr _ \<Rightarrow> ret True
       | Inl e \<Rightarrow> ret False)))"
  have e: "emits browser_event (?rest url)" for url
    by (intro emits_bnd emits_ui emits_if emits_attempt emits_case_sum emits_ret) simp_all
  let ?s1 = "emit ReadUrl s"
  obtain evs where "trace (snd (?rest (url_reply w (clock s)) w ?s1)) = trace ?s1 @ evs"
    "list_all browser_event evs"
    using emitsD [OF e, of "url_reply w (clock s)" w ?s1] by blast
  moreover have "verify_project_in_dashboard project_name timeout w s
      = ?rest (url_reply w (clock s)) w ?s1"
    by (simp add: verify_project_in_dashboard_def bnd_def page_url_def)
  ultimately show ?thesis by (simp add: emit_def)
qed

lemma guarded_sleep_check:
  assumes "\<And>x. traces nosleep (k x)"
  shows "guarded (bnd (sleep 2) (\<lambda>_. bnd (verify_project_in_dashboard project_name timeout) k))"
  unfolding guarded_def
proof (intro allI)
  fix w s
  let ?m = "bnd (sleep 2) (\<lambda>_. bnd (verify_project_in_dashboard project_name timeout) k)"
  let ?s1 = "emit (Sleep 2) s"
  have eq: "?m w s = bnd (verify_project_in_dashboard project_name timeout) k w ?s1"
    by (simp add: bnd_def sleep_def)
  obtain evs where v: "trace (snd (verify_project_in_dashboard project_name timeout w ?s1))
           = trace ?s1 @ ReadUrl # evs" "list_all browser_event evs"
    using verify_project_in_dashboard_trace [of project_name timeout w ?s1] by blast
  obtain r s2 where vr: "verify_project_in_dashboard project_name timeout w ?s1 = (r, s2)"
    by (cases "verify_project_in_dashboard project_name timeout w ?s1")
  have "\<exists>evs2. trace (snd (?m w s)) = trace s2 @ evs2 \<and> list_all nosleep evs2"
  proof (cases r)
    case (Inl e)
    then show ?thesis using vr eq by (simp add: bnd_def)
  next
    case (Inr x)
    from assms [of x] obtain evs2 where "trace (snd (k x w s2)) = trace s2 @ evs2"
      "list_all nosleep evs2"
      by (rule tracesD)
    then show ?thesis using vr eq Inr by (simp add: bnd_def)
  qed
  then obtain evs2 where 2: "trace (snd (?m w s)) = trace s2 @ evs2" "list_all nosleep evs2"
    by blast
  have "list_all nosleep evs" using v(2) browser_event_nosleep by (simp add: list_all_iff)
  then have "list_all nosleep (evs @ evs2)" using 2(2) by simp
  then have "sleep_checked ([] @ Sleep 2 # ReadUrl # (evs @ evs2))"
    unfolding sleep_checked_def by (intro exI [of _ "[]"] exI [of _ "evs @ evs2"]) simp
  moreover have "trace (snd (?m w s)) = trace s @ ([] @ Sleep 2 # ReadUrl # (evs @ evs2))"
    using 2(1) v(1) vr by (simp add: emit_def)
  ultimately show "\<exists>evs. trace (snd (?m w s)) = trace s @ evs
        \<and> (sleep_checked evs \<or> (list_all plain evs \<and> isl (fst (?m w s))))"
    by blast
qed

lemma emits_plain_login: "emits plain (login email password)"
  unfolding login_def by (intro emits_bnd emits_ui) simp_all

lemma traces_plain_ui: "traces plain (ui a)"
  by (rule emits_traces) (simp add: emits_ui)

lemma traces_plain_step1: "traces plain (step1_api_project_creation test_project)"
  unfolding step1_api_project_creation_def
  by (intro traces_bnd traces_authenticate traces_assert traces_create_project
      traces_set_created_project_id traces_cleanup_projects_append traces_ret) simp_all

lemma traces_nosleep_of_emits_quiet_browser:
  "emits browser_event m \<Longrightarrow> traces nosleep m"
  by (rule emits_traces) (rule emits_mono, assumption, rule browser_event_nosleep)

lemma emits_nosleep_step3: "emits nosleep (step3_mobile_accessibility test_project)"
  unfolding step3_mobile_accessibility_def
  by (intro emits_bnd emits_assert
      emits_mono [OF emits_test_mobile_accessibility browser_event_nosleep])

lemma emits_nosleep_step4: "emits nosleep (step4_tenant_isolation project_id)"
  unfolding step4_tenant_isolation_def
  by (intro emits_bnd emits_assert emits_verify_tenant_isolation) simp

lemma emits_nosleep_step5: "emits nosleep (step5_cross_platform test_project)"
  unfolding step5_cross_platform_def cross_platform_success_rate_def
proof (intro emits_bnd emits_assert emits_true_div)
  show "emits nosleep (test_cross_platform (name test_project) ADMIN_EMAIL PASSWORD)"
    by (rule emits_test_cross_platform) (simp_all add: browser_event_nosleep)
qed

lemma traces_nosleep_later_steps:
  "traces nosleep
     (bnd (step3_mobile_accessibility test_project) (\<lambda>_.
      bnd (step4_tenant_isolation project_id) (\<lambda>_.
      step5_cross_platform test_project)))"
  by (rule emits_traces)
     (intro emits_bnd emits_nosleep_step3 emits_nosleep_step4 emits_nosleep_step5)

lemma traces_nosleep_after_check:
  "traces nosleep
     (bnd (assert project_found msg) (\<lambda>_.
      bnd (verify_project_details test_project) (\<lambda>_. ret ())))"
  by (rule emits_traces)
     (intro emits_bnd emits_assert emits_ret
       emits_mono [OF emits_verify_project_details browser_event_nosleep])

lemma guarded_step2: "guarded (step2_web_ui_verification test_project)"
  unfolding step2_web_ui_verification_def with_playwright_def
  by (intro guarded_bnd_pre guarded_try_finally guarded_sleep_check traces_plain_ui
      emits_traces [OF emits_plain_login] traces_nosleep_after_check)

lemma traces_plain_verify_before_cleanup: "traces plain verify_before_cleanup"
  unfolding verify_before_cleanup_def
  by (rule emits_traces)
     (intro emits_bnd emits_get_created_project_id emits_if emits_attempt emits_ret
       emits_get_project, simp)

lemma guarded_flow: "guarded (test_project_creation_flow test_project)"
  unfolding test_project_creation_flow_def
  by (intro guarded_try_finally guarded_bnd_pre traces_plain_step1
      guarded_bnd_post [OF guarded_step2] traces_nosleep_later_steps
      traces_plain_verify_before_cleanup)

lemma traces_plain_delete_projects: "traces plain (delete_projects xs)"
  by (induction xs) (auto intro!: traces_bnd traces_delete_project simp add: traces_ret)

lemma traces_plain_teardown: "traces plain cleanup_projects_teardown"
  unfolding cleanup_projects_teardown_def
  by (intro traces_bnd traces_attempt traces_authenticate traces_get_cleanup_projects
      traces_plain_delete_projects traces_ret) simp

lemma run_one_sleep:
  "one_sleep_before_first_check (trace (snd (run_test_project_creation_flow test_project w)))"
proof -
  let ?after = "snd (test_project_creation_flow test_project w initial_state)"
  obtain evs where f: "trace ?after = trace initial_state @ evs"
    "sleep_checked evs \<or> list_all plain evs"
    using guardedD [OF guarded_flow, of test_project w initial_state] by blast
  obtain evs' where t: "trace (snd (cleanup_projects_teardown w ?after)) = trace ?after @ evs'"
    "list_all plain evs'"
    using tracesD [OF traces_plain_teardown, of w ?after] by blast
  have final: "snd (run_test_project_creation_flow test_project w)
      = snd (cleanup_projects_teardown w ?after)"
    by (simp add: run_test_project_creation_flow_def split: prod.splits)
  have "list_all nosleep evs'" using t(2) plain_nosleep by (simp add: list_all_iff)
  with f(2) t(2) have "sleep_checked (evs @ evs') \<or> list_all plain (evs @ evs')"
    by (auto simp add: sleep_checked_append)
  then have "one_sleep_before_first_check (evs @ evs')"
    using sleep_checked_one_sleep plain_one_sleep by blast
  then show ?thesis using final f(1) t(1) by (simp add: initial_state_def)
qed

end
